theory Spec2Isabelle
  imports Complex_Main "HOL-Library.Monad_Syntax"
begin

section \<open>Shallow embedding of the SPH position-based-fluids simulation\<close>

text \<open>
  The embedding follows \<^verbatim>\<open>src/fluid.c\<close> (the per-sub-step solver of a compute rank) and
  \<^verbatim>\<open>src/tunable_parameters.cpp\<close> (the partition controller). C \<^verbatim>\<open>float\<close> values are
  modelled as real numbers, so every result below is a statement about the program in
  exact arithmetic; rounding, overflow to infinity and NaN are outside the model.
  C \<^verbatim>\<open>int\<close> counters are modelled as \<open>int\<close>, C arrays as lists whose length is the
  array's capacity, and an access outside an array (undefined behaviour in C) is the
  value \<open>None\<close>.
\<close>

subsection \<open>Arrays and loops\<close>

definition array_get :: "'a list \<Rightarrow> int \<Rightarrow> 'a option" where
  "array_get xs i = (if 0 \<le> i \<and> i < int (length xs) then Some (xs ! nat i) else None)"

definition array_set :: "'a list \<Rightarrow> int \<Rightarrow> 'a \<Rightarrow> 'a list option" where
  "array_set xs i v = (if 0 \<le> i \<and> i < int (length xs) then Some (xs[nat i := v]) else None)"

text \<open>
  A counting loop \<^verbatim>\<open>for(i=0; i<n; i++) body\<close> runs its body on the indices
  \<open>[0..<nat n]\<close> in order, threading the state; it stops at the first failing access.
\<close>

fun for_loop :: "nat list \<Rightarrow> (nat \<Rightarrow> 's \<Rightarrow> 's option) \<Rightarrow> 's \<Rightarrow> 's option" where
  "for_loop [] body s = Some s"
| "for_loop (i # is) body s =
     (case body i s of None \<Rightarrow> None | Some s' \<Rightarrow> for_loop is body s')"

subsection \<open>Data of a compute rank (\<^verbatim>\<open>fluid.c\<close>)\<close>

text \<open>
  The headers declaring the structs are not part of the sources; the records hold the
  fields that \<^verbatim>\<open>fluid.c\<close> reads and writes. The fields \<^verbatim>\<open>x\<close> and \<^verbatim>\<open>y\<close> of a particle
  are called \<open>pos_x\<close> and \<open>pos_y\<close>.
\<close>

record fluid_particle_t =
  pos_x :: real
  pos_y :: real
  x_star :: real
  y_star :: real
  v_x :: real
  v_y :: real
  density :: real
  lambda :: real
  dp_x :: real
  dp_y :: real

record AABB_t =
  min_x :: real
  max_x :: real
  min_y :: real
  max_y :: real

record tunable_parameters_t =
  time_step :: real
  smoothing_radius :: real
  rest_density :: real
  mover_center_x :: real
  mover_center_y :: real
  mover_width :: real
  node_start_x :: real
  node_end_x :: real

record param_t =
  tunable_params :: tunable_parameters_t
  number_fluid_particles_local :: int
  number_halo_particles :: int

text \<open>
  \<^verbatim>\<open>fluid_particle_pointers\<close> is an array of pointers to particles, local particles first
  and halo particles after them. The model stores at index \<open>i\<close> the particle that
  \<^verbatim>\<open>fluid_particle_pointers[i]\<close> points to, and a neighbour pointer \<^verbatim>\<open>fluid_neighbors[j]\<close>
  is the index of that particle in the same array.
\<close>

record neighbor_t =
  fluid_neighbors :: "nat list"
  number_fluid_neighbors :: int

record oob_t =
  oob_pointer_indices_left :: "int list"
  oob_pointer_indices_right :: "int list"
  number_oob_particles_left :: int
  number_oob_particles_right :: int

record fluid_sim_t =
  fluid_particle_pointers :: "fluid_particle_t list"
  neighbors :: "neighbor_t list"
  params :: param_t
  boundary_global :: AABB_t
  out_of_bounds :: oob_t

subsection \<open>Smoothing kernels\<close>

definition W :: "real \<Rightarrow> real \<Rightarrow> real" where
  "W r h =
     (if r > h then 0
      else let C = 4 / (pi * h * h * h * h * h * h * h * h)
           in C * (h * h - r * r) * (h * h - r * r) * (h * h - r * r))"

definition del_W :: "real \<Rightarrow> real \<Rightarrow> real" where
  "del_W r h =
     (if r > h then 0
      else let eps = 0.000001;
               coef = - 30 / pi;
               C = coef / (h * h * h * h * h * (r + eps))
           in C * (h - r) * (h - r))"

subsection \<open>Lagrange multipliers\<close>

text \<open>
  Both inner loops of \<^verbatim>\<open>calculate_lambda\<close> compute, for neighbour \<open>j\<close> of particle \<open>p\<close>,
  the pair \<^verbatim>\<open>(grad*x_diff, grad*y_diff)\<close>.
\<close>

definition neighbor_gradient ::
    "fluid_sim_t \<Rightarrow> fluid_particle_t \<Rightarrow> neighbor_t \<Rightarrow> nat \<Rightarrow> (real \<times> real) option" where
  "neighbor_gradient fluid_sim p n j = do {
     qa \<leftarrow> array_get (fluid_neighbors n) (int j);
     q \<leftarrow> array_get (fluid_particle_pointers fluid_sim) (int qa);
     let x_diff = x_star p - x_star q;
         y_diff = y_star p - y_star q;
         r_mag = sqrt (x_diff * x_diff + y_diff * y_diff);
         grad = del_W r_mag (smoothing_radius (tunable_params (params fluid_sim)))
     in Some (grad * x_diff, grad * y_diff)
   }"

text \<open>The value of \<^verbatim>\<open>sum_C\<close> after the two neighbour loops, before it is scaled.\<close>

definition accumulate_sum_C ::
    "fluid_sim_t \<Rightarrow> fluid_particle_t \<Rightarrow> neighbor_t \<Rightarrow> real option" where
  "accumulate_sum_C fluid_sim p n = do {
     (grad_x, grad_y) \<leftarrow>
       for_loop [0 ..< nat (number_fluid_neighbors n)]
         (\<lambda>j (grad_x, grad_y). do {
            (gx, gy) \<leftarrow> neighbor_gradient fluid_sim p n j;
            Some (grad_x + gx, grad_y + gy)
          }) (0, 0);
     let sum_C = 0 + (grad_x * grad_x + grad_y * grad_y);
     for_loop [0 ..< nat (number_fluid_neighbors n)]
       (\<lambda>j sum_C. do {
          (grad_x, grad_y) \<leftarrow> neighbor_gradient fluid_sim p n j;
          Some (sum_C + (grad_x * grad_x + grad_y * grad_y))
        }) sum_C
   }"

text \<open>The factor \<^verbatim>\<open>(1.0f/rest_density*rest_density)\<close>, parsed as C parses it.\<close>

definition lambda_scale :: "real \<Rightarrow> real" where
  "lambda_scale rho = 1 / rho * rho"

definition calculate_lambda_particle :: "nat \<Rightarrow> fluid_sim_t \<Rightarrow> fluid_sim_t option" where
  "calculate_lambda_particle i fluid_sim = do {
     p \<leftarrow> array_get (fluid_particle_pointers fluid_sim) (int i);
     n \<leftarrow> array_get (neighbors fluid_sim) (int i);
     let Ci = density p / rest_density (tunable_params (params fluid_sim)) - 1;
     sum_C \<leftarrow> accumulate_sum_C fluid_sim p n;
     let sum_C = sum_C * lambda_scale (rest_density (tunable_params (params fluid_sim)));
         epsilon = 1
     in Some (fluid_sim\<lparr>fluid_particle_pointers :=
                (fluid_particle_pointers fluid_sim)[i := p\<lparr>lambda := - Ci / (sum_C + epsilon)\<rparr>]\<rparr>)
   }"

definition calculate_lambda :: "fluid_sim_t \<Rightarrow> fluid_sim_t option" where
  "calculate_lambda fluid_sim =
     for_loop [0 ..< nat (number_fluid_particles_local (params fluid_sim))]
       calculate_lambda_particle fluid_sim"

text \<open>
  The squared-gradient sum as the specification words it: the gradient term of neighbour
  \<open>j\<close> is \<open>gradW(r,h) \<cdot> (pos\<^sub>i* - pos\<^sub>j*)\<close>, and \<open>\<Sigma>\<^sub>i\<close> is the squared norm of the sum of
  these terms over the neighbours (the particle's own gradient) plus the sum of each
  neighbour's squared term.
\<close>

definition spec_gradient :: "real \<Rightarrow> fluid_particle_t \<Rightarrow> fluid_particle_t \<Rightarrow> real \<times> real" where
  "spec_gradient h p q =
     (let r = sqrt ((x_star p - x_star q)\<^sup>2 + (y_star p - y_star q)\<^sup>2)
      in (del_W r h * (x_star p - x_star q), del_W r h * (y_star p - y_star q)))"

definition spec_sigma :: "real \<Rightarrow> fluid_particle_t \<Rightarrow> fluid_particle_t list \<Rightarrow> real" where
  "spec_sigma h p qs =
     (\<Sum>q\<leftarrow>qs. fst (spec_gradient h p q))\<^sup>2 + (\<Sum>q\<leftarrow>qs. snd (spec_gradient h p q))\<^sup>2
     + (\<Sum>q\<leftarrow>qs. (fst (spec_gradient h p q))\<^sup>2 + (snd (spec_gradient h p q))\<^sup>2)"

definition spec_neighbors :: "fluid_sim_t \<Rightarrow> nat \<Rightarrow> fluid_particle_t list" where
  "spec_neighbors fluid_sim i =
     map (\<lambda>qa. fluid_particle_pointers fluid_sim ! qa)
       (take (nat (number_fluid_neighbors (neighbors fluid_sim ! i)))
          (fluid_neighbors (neighbors fluid_sim ! i)))"

text \<open>
  The pointer array and the neighbour lists stay inside their arrays for the local
  particles: what the C code needs to run \<^verbatim>\<open>calculate_lambda\<close> without reading outside
  an array.
\<close>

definition neighbors_in_range :: "fluid_sim_t \<Rightarrow> bool" where
  "neighbors_in_range fluid_sim \<longleftrightarrow>
     number_fluid_particles_local (params fluid_sim) \<le> int (length (fluid_particle_pointers fluid_sim)) \<and>
     number_fluid_particles_local (params fluid_sim) \<le> int (length (neighbors fluid_sim)) \<and>
     (\<forall>i \<in> {0 ..< nat (number_fluid_particles_local (params fluid_sim))}.
        number_fluid_neighbors (neighbors fluid_sim ! i)
          \<le> int (length (fluid_neighbors (neighbors fluid_sim ! i))) \<and>
        (\<forall>qa \<in> set (take (nat (number_fluid_neighbors (neighbors fluid_sim ! i)))
                       (fluid_neighbors (neighbors fluid_sim ! i))).
           qa < length (fluid_particle_pointers fluid_sim)))"

subsection \<open>Out-of-bounds scan\<close>

text \<open>
  The scan of \<^verbatim>\<open>identify_oob_particles\<close>, up to its call of \<^verbatim>\<open>transfer_OOB_particles\<close>
  (a function outside these sources, taken as a parameter below).
\<close>

definition oob_scan_particle :: "fluid_sim_t \<Rightarrow> nat \<Rightarrow> oob_t \<Rightarrow> oob_t option" where
  "oob_scan_particle fluid_sim i oob = do {
     p \<leftarrow> array_get (fluid_particle_pointers fluid_sim) (int i);
     if pos_x p < node_start_x (tunable_params (params fluid_sim)) then do {
       left \<leftarrow> array_set (oob_pointer_indices_left oob) (number_oob_particles_left oob) (int i);
       Some (oob\<lparr>oob_pointer_indices_left := left,
                 number_oob_particles_left := number_oob_particles_left oob + 1\<rparr>)
     }
     else if pos_x p > node_end_x (tunable_params (params fluid_sim)) then do {
       right \<leftarrow> array_set (oob_pointer_indices_right oob) (number_oob_particles_right oob) (int i);
       Some (oob\<lparr>oob_pointer_indices_right := right,
                 number_oob_particles_right := number_oob_particles_right oob + 1\<rparr>)
     }
     else Some oob
   }"

definition oob_scan :: "fluid_sim_t \<Rightarrow> fluid_sim_t option" where
  "oob_scan fluid_sim = do {
     let oob = (out_of_bounds fluid_sim)\<lparr>number_oob_particles_left := 0,
                                         number_oob_particles_right := 0\<rparr>;
     oob' \<leftarrow> for_loop [0 ..< nat (number_fluid_particles_local (params fluid_sim))]
               (oob_scan_particle fluid_sim) oob;
     Some (fluid_sim\<lparr>out_of_bounds := oob'\<rparr>)
   }"

definition identify_oob_particles ::
    "(fluid_sim_t \<Rightarrow> fluid_sim_t option) \<Rightarrow> fluid_sim_t \<Rightarrow> fluid_sim_t option" where
  "identify_oob_particles transfer_OOB_particles fluid_sim =
     oob_scan fluid_sim \<bind> transfer_OOB_particles"

text \<open>The queue of a side: the entries of its index array below its count.\<close>

definition left_queue :: "fluid_sim_t \<Rightarrow> int list" where
  "left_queue fluid_sim =
     take (nat (number_oob_particles_left (out_of_bounds fluid_sim)))
       (oob_pointer_indices_left (out_of_bounds fluid_sim))"

definition right_queue :: "fluid_sim_t \<Rightarrow> int list" where
  "right_queue fluid_sim =
     take (nat (number_oob_particles_right (out_of_bounds fluid_sim)))
       (oob_pointer_indices_right (out_of_bounds fluid_sim))"

subsection \<open>Velocity reconstruction\<close>

definition checkVelocity :: "real \<Rightarrow> real \<Rightarrow> real \<times> real" where
  "checkVelocity vx vy =
     (let v_max = 20;
          vx' = (if vx > v_max then v_max else if vx < - v_max then - v_max else vx);
          vy' = (if vy > v_max then v_max else if vy < - v_max then - v_max else vy)
      in (vx', vy'))"

definition updateVelocity :: "fluid_particle_t \<Rightarrow> param_t \<Rightarrow> fluid_particle_t" where
  "updateVelocity p prm =
     (let dt = time_step (tunable_params prm);
          vx = (x_star p - pos_x p) / dt;
          vy = (y_star p - pos_y p) / dt;
          (vx', vy') = checkVelocity vx vy
      in p\<lparr>v_x := vx', v_y := vy'\<rparr>)"

definition updateVelocities :: "fluid_sim_t \<Rightarrow> fluid_sim_t option" where
  "updateVelocities fluid_sim =
     for_loop [0 ..< nat (number_fluid_particles_local (params fluid_sim)
                          + number_halo_particles (params fluid_sim))]
       (\<lambda>i fluid_sim. do {
          p \<leftarrow> array_get (fluid_particle_pointers fluid_sim) (int i);
          Some (fluid_sim\<lparr>fluid_particle_pointers :=
                  (fluid_particle_pointers fluid_sim)[i := updateVelocity p (params fluid_sim)]\<rparr>)
        }) fluid_sim"

subsection \<open>Boundary conditions\<close>

text \<open>
  \<^verbatim>\<open>boundaryConditions\<close> has two parts, run one after the other on the predicted position:
  the repulsion from the circular mover, then the clamp to the global box.
\<close>

definition mover_repulsion :: "fluid_particle_t \<Rightarrow> fluid_sim_t \<Rightarrow> fluid_particle_t" where
  "mover_repulsion p fluid_sim =
     (let center_x = mover_center_x (tunable_params (params fluid_sim));
          center_y = mover_center_y (tunable_params (params fluid_sim));
          radius = mover_width (tunable_params (params fluid_sim)) * 0.5;
          d2 = (x_star p - center_x) * (x_star p - center_x)
               + (y_star p - center_y) * (y_star p - center_y)
      in if d2 \<le> radius * radius \<and> d2 > 0 then
           let d = sqrt d2;
               norm_x = (center_x - x_star p) / d;
               norm_y = (center_y - y_star p) / d;
               pen_dist = radius - d
           in p\<lparr>x_star := x_star p - pen_dist * norm_x,
                 y_star := y_star p - pen_dist * norm_y\<rparr>
         else p)"

definition clamp_to_boundary :: "fluid_particle_t \<Rightarrow> fluid_sim_t \<Rightarrow> fluid_particle_t" where
  "clamp_to_boundary p fluid_sim =
     (let boundary = boundary_global fluid_sim;
          p2 = (if x_star p < min_x boundary then p\<lparr>x_star := min_x boundary\<rparr>
                else if x_star p > max_x boundary then p\<lparr>x_star := max_x boundary - 0.001\<rparr>
                else p);
          p3 = (if y_star p2 < min_y boundary then p2\<lparr>y_star := min_y boundary\<rparr>
                else if y_star p2 > max_y boundary then p2\<lparr>y_star := max_y boundary - 0.001\<rparr>
                else p2)
      in p3)"

definition boundaryConditions :: "fluid_particle_t \<Rightarrow> fluid_sim_t \<Rightarrow> fluid_particle_t" where
  "boundaryConditions p fluid_sim = clamp_to_boundary (mover_repulsion p fluid_sim) fluid_sim"

text \<open>
  The mover disc keeps clear of the walls: it lies strictly inside the box, more than the
  clamp's inward bias away from the max edges.
\<close>

definition mover_clear_of_walls :: "fluid_sim_t \<Rightarrow> bool" where
  "mover_clear_of_walls fluid_sim \<longleftrightarrow>
     (let boundary = boundary_global fluid_sim;
          center_x = mover_center_x (tunable_params (params fluid_sim));
          center_y = mover_center_y (tunable_params (params fluid_sim));
          radius = mover_width (tunable_params (params fluid_sim)) * 0.5
      in 0 \<le> radius \<and>
         min_x boundary < center_x - radius \<and> center_x + radius < max_x boundary - 0.001 \<and>
         min_y boundary < center_y - radius \<and> center_y + radius < max_y boundary - 0.001)"

text \<open>
  The predicted position is one that the mover leaves alone: strictly outside the mover
  circle, or exactly at its centre (the test \<^verbatim>\<open>d2 <= radius*radius && d2 > 0.0f\<close> fails).
\<close>

definition outside_mover :: "fluid_particle_t \<Rightarrow> fluid_sim_t \<Rightarrow> bool" where
  "outside_mover p fluid_sim \<longleftrightarrow>
     (let center_x = mover_center_x (tunable_params (params fluid_sim));
          center_y = mover_center_y (tunable_params (params fluid_sim));
          radius = mover_width (tunable_params (params fluid_sim)) * 0.5;
          d2 = (x_star p - center_x) * (x_star p - center_x)
               + (y_star p - center_y) * (y_star p - center_y)
      in radius * radius < d2 \<or> d2 = 0)"

subsection \<open>Example configurations\<close>

definition particle_at :: "real \<Rightarrow> real \<Rightarrow> real \<Rightarrow> real \<Rightarrow> fluid_particle_t" where
  "particle_at x y xs ys =
     \<lparr>pos_x = x, pos_y = y, x_star = xs, y_star = ys, v_x = 0, v_y = 0,
      density = 1, lambda = 0, dp_x = 0, dp_y = 0\<rparr>"

text \<open>
  A rank owning \<open>[0, 10]\<close> of a box \<open>[0, 100] \<times> [0, 100]\<close> that holds the particles \<open>ps\<close>
  (all of them local, with the neighbour lists \<open>ns\<close>) and a mover of the given centre and
  width; time step \<open>1/2\<close>, smoothing radius and rest density \<open>1\<close>, queues of capacity 4.
\<close>

definition example_sim ::
    "fluid_particle_t list \<Rightarrow> neighbor_t list \<Rightarrow> real \<Rightarrow> real \<Rightarrow> real \<Rightarrow> fluid_sim_t" where
  "example_sim ps ns cx cy width =
     \<lparr>fluid_particle_pointers = ps,
      neighbors = ns,
      params = \<lparr>tunable_params =
                  \<lparr>time_step = 1/2, smoothing_radius = 1, rest_density = 1,
                   mover_center_x = cx, mover_center_y = cy, mover_width = width,
                   node_start_x = 0, node_end_x = 10\<rparr>,
                number_fluid_particles_local = int (length ps),
                number_halo_particles = 0\<rparr>,
      boundary_global = \<lparr>min_x = 0, max_x = 100, min_y = 0, max_y = 100\<rparr>,
      out_of_bounds = \<lparr>oob_pointer_indices_left = [0, 0, 0, 0],
                       oob_pointer_indices_right = [0, 0, 0, 0],
                       number_oob_particles_left = 7,
                       number_oob_particles_right = 7\<rparr>\<rparr>"

subsection \<open>Partition controller (\<^verbatim>\<open>tunable_parameters.cpp\<close>)\<close>

text \<open>
  The class \<^verbatim>\<open>TunableParameters\<close>, with the members that \<^verbatim>\<open>remove_partition\<close> and
  \<^verbatim>\<open>add_partition\<close> use.
\<close>

record TunableParameters =
  smoothing_radius :: real
  proc_starts :: "real list"
  proc_ends :: "real list"
  num_compute_procs_active :: int
  num_compute_procs :: int

definition remove_partition :: "TunableParameters \<Rightarrow> TunableParameters option" where
  "remove_partition t =
     (if num_compute_procs_active t = 1 then Some t
      else do {
        let removed_rank = num_compute_procs_active t - 1;
        e \<leftarrow> array_get (proc_ends t) removed_rank;
        ends1 \<leftarrow> array_set (proc_ends t) (removed_rank - 1) e;
        e' \<leftarrow> array_get ends1 removed_rank;
        let position = e' + 1.0;
        starts1 \<leftarrow> array_set (proc_starts t) removed_rank position;
        ends2 \<leftarrow> array_set ends1 removed_rank position;
        Some (t\<lparr>proc_starts := starts1, proc_ends := ends2,
                 num_compute_procs_active := num_compute_procs_active t - 1\<rparr>)
      })"

definition add_partition :: "TunableParameters \<Rightarrow> TunableParameters option" where
  "add_partition t =
     (if num_compute_procs_active t = num_compute_procs t then Some t
      else do {
        e \<leftarrow> array_get (proc_ends t) (num_compute_procs_active t - 1);
        s \<leftarrow> array_get (proc_starts t) (num_compute_procs_active t - 1);
        let length = e - s;
        if length < 2.5 * smoothing_radius t then Some t
        else do {
          e' \<leftarrow> array_get (proc_ends t) (num_compute_procs_active t - 1);
          ends1 \<leftarrow> array_set (proc_ends t) (num_compute_procs_active t) e';
          s' \<leftarrow> array_get (proc_starts t) (num_compute_procs_active t - 1);
          let new_x = s' + length * 0.5;
          ends2 \<leftarrow> array_set ends1 (num_compute_procs_active t - 1) new_x;
          starts1 \<leftarrow> array_set (proc_starts t) (num_compute_procs_active t) new_x;
          Some (t\<lparr>proc_starts := starts1, proc_ends := ends2,
                   num_compute_procs_active := num_compute_procs_active t + 1\<rparr>)
        }
      })"


datatype partition_command = AddPartition | RemovePartition

fun apply_command :: "TunableParameters \<Rightarrow> partition_command \<Rightarrow> TunableParameters option" where
  "apply_command t AddPartition = add_partition t"
| "apply_command t RemovePartition = remove_partition t"

fun apply_commands :: "TunableParameters \<Rightarrow> partition_command list \<Rightarrow> TunableParameters option" where
  "apply_commands t [] = Some t"
| "apply_commands t (c # cs) =
     (case apply_command t c of None \<Rightarrow> None | Some t' \<Rightarrow> apply_commands t' cs)"

text \<open>
  A table is well formed when at least one and at most all rank slots are active and
  every slot is inside both arrays.
\<close>

definition wf_table :: "TunableParameters \<Rightarrow> bool" where
  "wf_table t \<longleftrightarrow>
     1 \<le> num_compute_procs_active t \<and>
     num_compute_procs_active t \<le> num_compute_procs t \<and>
     num_compute_procs t \<le> int (length (proc_starts t)) \<and>
     num_compute_procs t \<le> int (length (proc_ends t))"

text \<open>
  The partition invariant for the global box: the first active interval starts at
  \<open>min_x\<close>, every active interval is ordered, each active interval starts where the one
  before it ends, and every inactive slot's interval lies outside \<open>[min_x, max_x]\<close>.
\<close>

definition partition_invariant :: "AABB_t \<Rightarrow> TunableParameters \<Rightarrow> bool" where
  "partition_invariant boundary t \<longleftrightarrow>
     wf_table t \<and>
     proc_starts t ! 0 = min_x boundary \<and>
     (\<forall>i \<in> {0 ..< nat (num_compute_procs_active t)}. proc_starts t ! i \<le> proc_ends t ! i) \<and>
     (\<forall>i \<in> {0 ..< nat (num_compute_procs_active t) - 1}. proc_starts t ! Suc i = proc_ends t ! i) \<and>
     (\<forall>i \<in> {nat (num_compute_procs_active t) ..< nat (num_compute_procs t)}.
        proc_ends t ! i < min_x boundary \<or> max_x boundary < proc_starts t ! i)"

text \<open>
  The position at which \<^verbatim>\<open>remove_partition\<close> would park the last active rank, its end
  plus \<open>1.0\<close>, lies beyond \<open>max_x\<close>.
\<close>

definition parking_position_outside :: "AABB_t \<Rightarrow> TunableParameters \<Rightarrow> bool" where
  "parking_position_outside boundary t \<longleftrightarrow>
     max_x boundary < proc_ends t ! (nat (num_compute_procs_active t) - 1) + 1"

text \<open>The interval of rank slot \<open>i\<close> lies outside \<open>[min_x, max_x]\<close>.\<close>

definition interval_outside :: "AABB_t \<Rightarrow> TunableParameters \<Rightarrow> nat \<Rightarrow> bool" where
  "interval_outside boundary t i \<longleftrightarrow>
     proc_ends t ! i < min_x boundary \<or> max_x boundary < proc_starts t ! i"

section \<open>Properties\<close>

subsection \<open>Evaluating index ranges on numerals\<close>

lemmas upt_eval =
  atLeastLessThan_upt upt_rec[of _ "numeral _"] upt_rec[of _ "Suc _"] upt_rec[of _ "1"]
  upt_rec[of _ "0"]

subsection \<open>Counting loops\<close>

lemma for_loop_snoc:
  "for_loop (xs @ [x]) body s =
     (case for_loop xs body s of None \<Rightarrow> None | Some s' \<Rightarrow> body x s')"
  by (induction xs arbitrary: s) (auto split: option.splits)

lemma for_loop_invariant:
  assumes init: "I 0 s"
    and step: "\<And>k s. k < n \<Longrightarrow> I k s \<Longrightarrow> \<exists>s'. body k s = Some s' \<and> I (Suc k) s'"
  shows "\<exists>s'. for_loop [0 ..< n] body s = Some s' \<and> I n s'"
proof -
  have "m \<le> n \<Longrightarrow> \<exists>s'. for_loop [0 ..< m] body s = Some s' \<and> I m s'" for m
  proof (induction m)
    case 0
    then show ?case using init by simp
  next
    case (Suc m)
    then obtain s1 where s1: "for_loop [0 ..< m] body s = Some s1" "I m s1" by auto
    from Suc.prems have "m < n" by simp
    from step[OF this s1(2)] obtain s2 where "body m s1 = Some s2" "I (Suc m) s2" by blast
    then show ?case using s1(1) by (simp add: for_loop_snoc)
  qed
  then show ?thesis by simp
qed

subsection \<open>Partition controller: closed forms and invariant preservation\<close>

lemma remove_partition_eq:
  assumes "2 \<le> num_compute_procs_active t"
    and "num_compute_procs_active t \<le> int (length (proc_starts t))"
    and "num_compute_procs_active t \<le> int (length (proc_ends t))"
  shows "remove_partition t =
     Some (t\<lparr>proc_starts := (proc_starts t)
                 [nat (num_compute_procs_active t) - 1 := proc_ends t ! (nat (num_compute_procs_active t) - 1) + 1],
              proc_ends := (proc_ends t)
                 [nat (num_compute_procs_active t) - 2 := proc_ends t ! (nat (num_compute_procs_active t) - 1),
                  nat (num_compute_procs_active t) - 1 := proc_ends t ! (nat (num_compute_procs_active t) - 1) + 1],
              num_compute_procs_active := num_compute_procs_active t - 1\<rparr>)"
proof -
  obtain a where a: "num_compute_procs_active t = int a" "2 \<le> a"
    using assms(1) by (metis nat_le_iff nat_0_le order_trans zero_le_numeral nat_numeral int_nat_eq of_nat_le_iff of_nat_numeral)
  have n1: "nat (int a - 1) = a - 1" and n2: "nat (int a - 2) = a - 2" and n0: "nat (int a) = a"
    using a(2) by auto
  show ?thesis
    using assms a(2)
    by (simp add: remove_partition_def array_get_def array_set_def a(1) n1 n2 Let_def)
qed

lemma add_partition_eq:
  assumes "1 \<le> num_compute_procs_active t"
    and "num_compute_procs_active t \<noteq> num_compute_procs t"
    and "num_compute_procs_active t < int (length (proc_starts t))"
    and "num_compute_procs_active t < int (length (proc_ends t))"
    and "\<not> proc_ends t ! (nat (num_compute_procs_active t) - 1)
           - proc_starts t ! (nat (num_compute_procs_active t) - 1) < 2.5 * smoothing_radius t"
  shows "add_partition t =
     Some (t\<lparr>proc_starts := (proc_starts t)
                 [nat (num_compute_procs_active t) :=
                    proc_starts t ! (nat (num_compute_procs_active t) - 1)
                    + (proc_ends t ! (nat (num_compute_procs_active t) - 1)
                       - proc_starts t ! (nat (num_compute_procs_active t) - 1)) * 0.5],
              proc_ends := (proc_ends t)
                 [nat (num_compute_procs_active t) := proc_ends t ! (nat (num_compute_procs_active t) - 1),
                  nat (num_compute_procs_active t) - 1 :=
                    proc_starts t ! (nat (num_compute_procs_active t) - 1)
                    + (proc_ends t ! (nat (num_compute_procs_active t) - 1)
                       - proc_starts t ! (nat (num_compute_procs_active t) - 1)) * 0.5],
              num_compute_procs_active := num_compute_procs_active t + 1\<rparr>)"
proof -
  obtain a where a: "num_compute_procs_active t = int a" "1 \<le> a"
    using assms(1) by (metis nat_le_iff nat_0_le order_trans zero_le_one int_nat_eq of_nat_le_iff of_nat_1 nat_one_as_int)
  have n1: "nat (int a - 1) = a - 1" and n0: "nat (int a) = a"
    using a(2) by auto
  show ?thesis
    using assms a(2)
    by (simp add: add_partition_def array_get_def array_set_def a(1) n1 Let_def)
qed


lemma remove_partition_preserves:
  assumes inv: "partition_invariant boundary t" and le: "parking_position_outside boundary t"
  shows "\<exists>t'. remove_partition t = Some t' \<and> partition_invariant boundary t'
            \<and> parking_position_outside boundary t'"
proof (cases "num_compute_procs_active t = 1")
  case True
  then show ?thesis using inv le by (simp add: remove_partition_def)
next
  case False
  from inv have wf: "wf_table t" by (simp add: partition_invariant_def)
  obtain a where a: "num_compute_procs_active t = int a" "2 \<le> a"
    using wf False unfolding wf_table_def
    by (metis add_le_imp_le_left int_nat_eq le_numeral_extra(3) nat_le_iff nat_numeral
        of_nat_numeral one_add_one order_le_less order_trans zle_add1_eq_le zero_le_one nat_int nat_mono
        add.commute less_le_not_le linorder_not_le)
  have lens: "a \<le> length (proc_starts t)" "a \<le> length (proc_ends t)" "int a \<le> num_compute_procs t"
    using wf a unfolding wf_table_def by auto
  have eq: "remove_partition t =
     Some (t\<lparr>proc_starts := (proc_starts t) [a - 1 := proc_ends t ! (a - 1) + 1],
              proc_ends := (proc_ends t) [a - 2 := proc_ends t ! (a - 1), a - 1 := proc_ends t ! (a - 1) + 1],
              num_compute_procs_active := int a - 1\<rparr>)"
    using remove_partition_eq[of t] a lens by simp
  have n1: "nat (int a - 1) = a - 1" using a(2) by auto
  have ord: "\<And>i. i < a \<Longrightarrow> proc_starts t ! i \<le> proc_ends t ! i"
    and cont: "\<And>i. i < a - 1 \<Longrightarrow> proc_starts t ! Suc i = proc_ends t ! i"
    and inact: "\<And>i. a \<le> i \<Longrightarrow> i < nat (num_compute_procs t) \<Longrightarrow>
                  proc_ends t ! i < min_x boundary \<or> max_x boundary < proc_starts t ! i"
    and st0: "proc_starts t ! 0 = min_x boundary"
    using inv a(1) by (simp_all add: partition_invariant_def)
  have bd: "max_x boundary < proc_ends t ! (a - 1) + 1"
    using le a(1) by (simp add: parking_position_outside_def)
  have chain: "proc_starts t ! (a - 2) \<le> proc_ends t ! (a - 1)"
  proof -
    have "proc_starts t ! (a - 2) \<le> proc_ends t ! (a - 2)" using ord[of "a - 2"] a(2) by simp
    also have "\<dots> = proc_starts t ! Suc (a - 2)" using cont[of "a - 2"] a(2) by simp
    also have "Suc (a - 2) = a - 1" using a(2) by simp
    also have "proc_starts t ! (a - 1) \<le> proc_ends t ! (a - 1)" using ord[of "a - 1"] a(2) by simp
    finally show ?thesis .
  qed
  let ?t' = "t\<lparr>proc_starts := (proc_starts t) [a - 1 := proc_ends t ! (a - 1) + 1],
              proc_ends := (proc_ends t) [a - 2 := proc_ends t ! (a - 1), a - 1 := proc_ends t ! (a - 1) + 1],
              num_compute_procs_active := int a - 1\<rparr>"
  have wf': "wf_table ?t'"
    using wf a by (simp add: wf_table_def)
  have p1: "proc_starts ?t' ! 0 = min_x boundary" using st0 a(2) by (simp add: nth_list_update)
  have p2: "\<forall>i \<in> {0 ..< a - 1}. proc_starts ?t' ! i \<le> proc_ends ?t' ! i"
    using ord chain lens a(2) by (auto simp: nth_list_update)
  have p3: "\<forall>i \<in> {0 ..< a - 1 - 1}. proc_starts ?t' ! Suc i = proc_ends ?t' ! i"
    using cont lens a(2) by (auto simp: nth_list_update)
  have p4: "\<forall>i \<in> {a - 1 ..< nat (num_compute_procs t)}.
              proc_ends ?t' ! i < min_x boundary \<or> max_x boundary < proc_starts ?t' ! i"
  proof
    fix i assume i: "i \<in> {a - 1 ..< nat (num_compute_procs t)}"
    show "proc_ends ?t' ! i < min_x boundary \<or> max_x boundary < proc_starts ?t' ! i"
    proof (cases "i = a - 1")
      case True
      then show ?thesis using bd lens a(2) by (simp add: nth_list_update)
    next
      case False
      then have "a \<le> i" using i by auto
      then show ?thesis using inact[of i] i a(2) by (simp add: nth_list_update)
    qed
  qed
  have inv': "partition_invariant boundary ?t'"
    unfolding partition_invariant_def using wf' p1 p2 p3 p4 by (simp add: n1)
  have le': "parking_position_outside boundary ?t'"
    using bd lens a(2) by (auto simp: parking_position_outside_def n1 nth_list_update numeral_2_eq_2)
  show ?thesis using eq inv' le' by blast
qed


lemma add_partition_noop_small:
  assumes "1 \<le> num_compute_procs_active t"
    and "num_compute_procs_active t \<le> int (length (proc_starts t))"
    and "num_compute_procs_active t \<le> int (length (proc_ends t))"
    and "proc_ends t ! (nat (num_compute_procs_active t) - 1)
           - proc_starts t ! (nat (num_compute_procs_active t) - 1) < 2.5 * smoothing_radius t"
  shows "add_partition t = Some t"
proof -
  obtain a where a: "num_compute_procs_active t = int a" "1 \<le> a"
    using assms(1) by (metis nat_le_iff nat_0_le order_trans zero_le_one int_nat_eq of_nat_le_iff of_nat_1 nat_one_as_int)
  have n1: "nat (int a - 1) = a - 1"
    using a(2) by auto
  show ?thesis
    using assms a(2)
    by (simp add: add_partition_def array_get_def a(1) n1 Let_def)
qed

lemma add_partition_preserves:
  assumes inv: "partition_invariant boundary t" and le: "parking_position_outside boundary t"
  shows "\<exists>t'. add_partition t = Some t' \<and> partition_invariant boundary t'
            \<and> parking_position_outside boundary t'"
proof -
  from inv have wf: "wf_table t" by (simp add: partition_invariant_def)
  obtain a where a: "num_compute_procs_active t = int a" "1 \<le> a"
    using wf unfolding wf_table_def
    by (metis nat_le_iff nat_0_le order_trans zero_le_one int_nat_eq of_nat_le_iff of_nat_1 nat_one_as_int)
  have n0: "nat (num_compute_procs_active t) = a" using a(1) by simp
  consider (full) "num_compute_procs_active t = num_compute_procs t"
    | (small) "num_compute_procs_active t \<noteq> num_compute_procs t"
        "proc_ends t ! (a - 1) - proc_starts t ! (a - 1) < 2.5 * smoothing_radius t"
    | (split) "num_compute_procs_active t \<noteq> num_compute_procs t"
        "\<not> proc_ends t ! (a - 1) - proc_starts t ! (a - 1) < 2.5 * smoothing_radius t"
    by blast
  then show ?thesis
  proof cases
    case full
    then show ?thesis using inv le by (simp add: add_partition_def)
  next
    case small
    have "add_partition t = Some t"
      using add_partition_noop_small[of t] wf small(2) a unfolding wf_table_def by simp
    then show ?thesis using inv le by simp
  next
    case split
    have lens: "a < length (proc_starts t)" "a < length (proc_ends t)" "int a < num_compute_procs t"
      using wf a split(1) unfolding wf_table_def by auto
    define nx where "nx = proc_starts t ! (a - 1) + (proc_ends t ! (a - 1) - proc_starts t ! (a - 1)) * 0.5"
    let ?t' = "t\<lparr>proc_starts := (proc_starts t) [a := nx],
              proc_ends := (proc_ends t) [a := proc_ends t ! (a - 1), a - 1 := nx],
              num_compute_procs_active := int a + 1\<rparr>"
    have eq: "add_partition t = Some ?t'"
      using add_partition_eq[of t] a lens split by (simp add: nx_def)
    have n1: "nat (int a + 1) = Suc a" by simp
    have ord: "\<And>i. i < a \<Longrightarrow> proc_starts t ! i \<le> proc_ends t ! i"
      and cont: "\<And>i. i < a - 1 \<Longrightarrow> proc_starts t ! Suc i = proc_ends t ! i"
      and inact: "\<And>i. a \<le> i \<Longrightarrow> i < nat (num_compute_procs t) \<Longrightarrow>
                  proc_ends t ! i < min_x boundary \<or> max_x boundary < proc_starts t ! i"
      and st0: "proc_starts t ! 0 = min_x boundary"
      using inv a(1) by (simp_all add: partition_invariant_def)
    have bd: "max_x boundary < proc_ends t ! (a - 1) + 1"
      using le a(1) by (simp add: parking_position_outside_def)
    have se: "proc_starts t ! (a - 1) \<le> proc_ends t ! (a - 1)" using ord[of "a - 1"] a(2) by simp
    have mid: "proc_starts t ! (a - 1) \<le> nx" "nx \<le> proc_ends t ! (a - 1)"
      using se unfolding nx_def by (simp_all add: field_simps)
    have wf': "wf_table ?t'"
      using wf a lens by (simp add: wf_table_def)
    have p1: "proc_starts ?t' ! 0 = min_x boundary" using st0 a(2) by (simp add: nth_list_update)
    have p2: "\<forall>i \<in> {0 ..< Suc a}. proc_starts ?t' ! i \<le> proc_ends ?t' ! i"
    proof
      fix i assume "i \<in> {0 ..< Suc a}"
      then consider "i < a - 1" | "i = a - 1" | "i = a" using a(2) by force
      then show "proc_starts ?t' ! i \<le> proc_ends ?t' ! i"
      proof cases
        case 1 then show ?thesis using ord[of i] lens by (simp add: nth_list_update)
      next
        case 2 then show ?thesis using mid lens a(2) by (simp add: nth_list_update)
      next
        case 3 then show ?thesis using mid lens a(2) by (simp add: nth_list_update)
      qed
    qed
    have p3: "\<forall>i \<in> {0 ..< Suc a - 1}. proc_starts ?t' ! Suc i = proc_ends ?t' ! i"
    proof
      fix i assume "i \<in> {0 ..< Suc a - 1}"
      then consider "i < a - 1" | "i = a - 1" using a(2) by force
      then show "proc_starts ?t' ! Suc i = proc_ends ?t' ! i"
      proof cases
        case 1 then show ?thesis using cont[of i] lens by (simp add: nth_list_update)
      next
        case 2 then show ?thesis using lens a(2) by (simp add: nth_list_update)
      qed
    qed
    have p4: "\<forall>i \<in> {Suc a ..< nat (num_compute_procs t)}.
              proc_ends ?t' ! i < min_x boundary \<or> max_x boundary < proc_starts ?t' ! i"
    proof
      fix i assume i: "i \<in> {Suc a ..< nat (num_compute_procs t)}"
      then have "proc_ends t ! i < min_x boundary \<or> max_x boundary < proc_starts t ! i"
        using inact[of i] by simp
      moreover have "i \<noteq> a" "i \<noteq> a - 1" using i by auto
      ultimately show "proc_ends ?t' ! i < min_x boundary \<or> max_x boundary < proc_starts ?t' ! i"
        by simp
    qed
    have inv': "partition_invariant boundary ?t'"
      unfolding partition_invariant_def using wf' p1 p2 p3 p4 by (simp add: n1)
    have le': "parking_position_outside boundary ?t'"
      using bd lens a(2) by (auto simp: parking_position_outside_def n1 nth_list_update)
    show ?thesis using eq inv' le' by blast
  qed
qed

lemma apply_commands_preserves:
  "partition_invariant boundary t \<Longrightarrow> parking_position_outside boundary t \<Longrightarrow>
   \<exists>t'. apply_commands t cs = Some t' \<and> partition_invariant boundary t'
            \<and> parking_position_outside boundary t'"
proof (induction cs arbitrary: t)
  case Nil
  then show ?case by simp
next
  case (Cons c cs)
  obtain t1 where t1: "apply_command t c = Some t1" "partition_invariant boundary t1"
      "parking_position_outside boundary t1"
    using Cons.prems add_partition_preserves remove_partition_preserves
    by (cases c) (simp; blast)+
  show ?case using Cons.IH[OF t1(2,3)] t1(1) by simp
qed

subsection \<open>Claims about the partition controller\<close>

text \<open>
  Claim C6, as stated, fails in its clause that the removed rank's interval is moved
  fully outside the global boundary. With the box \<open>[0, 20]\<close> and three active ranks owning
  \<open>[0, 3]\<close>, \<open>[3, 6]\<close> and \<open>[6, 8]\<close>, \<open>remove_partition\<close> extends the second interval to \<open>[3, 8]\<close>
  and parks the third rank at \<open>8 + 1 = 9\<close>, inside the box.
\<close>

theorem remove_partition_parks_inside:
  "remove_partition
     \<lparr>smoothing_radius = 1, proc_starts = [0, 3, 6], proc_ends = [3, 6, 8],
      num_compute_procs_active = 3, num_compute_procs = 3\<rparr>
   = Some \<lparr>smoothing_radius = 1, proc_starts = [0, 3, 9], proc_ends = [3, 8, 9],
            num_compute_procs_active = 2, num_compute_procs = 3\<rparr> \<and>
   \<not> interval_outside \<lparr>min_x = 0, max_x = 20, min_y = 0, max_y = 20\<rparr>
       \<lparr>smoothing_radius = 1, proc_starts = [0, 3, 9], proc_ends = [3, 8, 9],
        num_compute_procs_active = 2, num_compute_procs = 3\<rparr> 2"
  by (simp add: remove_partition_def array_get_def array_set_def interval_outside_def)

text \<open>
  Claim C6, amended. \<open>remove_partition\<close> leaves the table and the active count unchanged
  when exactly one rank is active. With at least two active ranks (and the active ranks
  inside both arrays) it returns the table in which the left neighbour's end is the
  removed (rightmost active) rank's end, the removed rank's start and end are both that
  old end plus \<open>1.0\<close>, and the active count is one less; every other slot and field is as
  before. The removed rank's interval then lies outside \<open>[min_x, max_x]\<close> exactly when the
  old end plus \<open>1.0\<close> is below \<open>min_x\<close> or above \<open>max_x\<close>.
\<close>

theorem remove_partition_effect:
  "(num_compute_procs_active t = 1 \<longrightarrow> remove_partition t = Some t) \<and>
   (2 \<le> num_compute_procs_active t \<and>
    num_compute_procs_active t \<le> int (length (proc_starts t)) \<and>
    num_compute_procs_active t \<le> int (length (proc_ends t)) \<longrightarrow>
      (let removed_rank = nat (num_compute_procs_active t) - 1;
           old_end = proc_ends t ! removed_rank;
           t' = t\<lparr>proc_starts := (proc_starts t)[removed_rank := old_end + 1],
                  proc_ends := (proc_ends t)[removed_rank - 1 := old_end,
                                             removed_rank := old_end + 1],
                  num_compute_procs_active := num_compute_procs_active t - 1\<rparr>
       in remove_partition t = Some t' \<and>
          (interval_outside boundary t' removed_rank \<longleftrightarrow>
             old_end + 1 < min_x boundary \<or> max_x boundary < old_end + 1)))"
proof -
  have single: "num_compute_procs_active t = 1 \<longrightarrow> remove_partition t = Some t"
    by (simp add: remove_partition_def)
  have several: "let removed_rank = nat (num_compute_procs_active t) - 1;
           old_end = proc_ends t ! removed_rank;
           t' = t\<lparr>proc_starts := (proc_starts t)[removed_rank := old_end + 1],
                  proc_ends := (proc_ends t)[removed_rank - 1 := old_end,
                                             removed_rank := old_end + 1],
                  num_compute_procs_active := num_compute_procs_active t - 1\<rparr>
       in remove_partition t = Some t' \<and>
          (interval_outside boundary t' removed_rank \<longleftrightarrow>
             old_end + 1 < min_x boundary \<or> max_x boundary < old_end + 1)"
    if h: "2 \<le> num_compute_procs_active t \<and>
      num_compute_procs_active t \<le> int (length (proc_starts t)) \<and>
      num_compute_procs_active t \<le> int (length (proc_ends t))"
  proof -
    define r where "r = nat (num_compute_procs_active t) - 1"
    have rs: "r < length (proc_starts t)" and re: "r < length (proc_ends t)"
      using h by (auto simp: r_def)
    have eq: "remove_partition t =
        Some (t\<lparr>proc_starts := (proc_starts t)[r := proc_ends t ! r + 1],
                 proc_ends := (proc_ends t)[r - 1 := proc_ends t ! r, r := proc_ends t ! r + 1],
                 num_compute_procs_active := num_compute_procs_active t - 1\<rparr>)"
    proof -
      have "nat (num_compute_procs_active t) - 1 - 1 = nat (num_compute_procs_active t) - 2"
        by simp
      then show ?thesis unfolding r_def using remove_partition_eq[of t] h by simp
    qed
    have out: "interval_outside boundary
        (t\<lparr>proc_starts := (proc_starts t)[r := proc_ends t ! r + 1],
            proc_ends := (proc_ends t)[r - 1 := proc_ends t ! r, r := proc_ends t ! r + 1],
            num_compute_procs_active := num_compute_procs_active t - 1\<rparr>) r
        \<longleftrightarrow> proc_ends t ! r + 1 < min_x boundary \<or> max_x boundary < proc_ends t ! r + 1"
      using rs re by (simp add: interval_outside_def)
    show ?thesis unfolding Let_def r_def[symmetric] using eq out by blast
  qed
  show ?thesis using single several by blast
qed

theorem remove_partition_effect_witness:
  "num_compute_procs_active
     \<lparr>smoothing_radius = 1, proc_starts = [0, 11], proc_ends = [10, 11],
      num_compute_procs_active = 1, num_compute_procs = 2\<rparr> = 1 \<and>
   remove_partition
     \<lparr>smoothing_radius = 1, proc_starts = [0, 11], proc_ends = [10, 11],
      num_compute_procs_active = 1, num_compute_procs = 2\<rparr>
   = Some \<lparr>smoothing_radius = 1, proc_starts = [0, 11], proc_ends = [10, 11],
            num_compute_procs_active = 1, num_compute_procs = 2\<rparr> \<and>
   (2::int) \<le> num_compute_procs_active
     \<lparr>smoothing_radius = 1, proc_starts = [0, 4, 7], proc_ends = [4, 7, 10],
      num_compute_procs_active = 3, num_compute_procs = 3\<rparr> \<and>
   remove_partition
     \<lparr>smoothing_radius = 1, proc_starts = [0, 4, 7], proc_ends = [4, 7, 10],
      num_compute_procs_active = 3, num_compute_procs = 3\<rparr>
   = Some \<lparr>smoothing_radius = 1, proc_starts = [0, 4, 11], proc_ends = [4, 10, 11],
            num_compute_procs_active = 2, num_compute_procs = 3\<rparr> \<and>
   interval_outside \<lparr>min_x = 0, max_x = 10, min_y = 0, max_y = 10\<rparr>
     \<lparr>smoothing_radius = 1, proc_starts = [0, 4, 11], proc_ends = [4, 10, 11],
      num_compute_procs_active = 2, num_compute_procs = 3\<rparr> 2"
  using remove_partition_effect
          [of "\<lparr>smoothing_radius = 1, proc_starts = [0, 11], proc_ends = [10, 11],
                num_compute_procs_active = 1, num_compute_procs = 2\<rparr>"
              "\<lparr>min_x = 0, max_x = 10, min_y = 0, max_y = 10\<rparr>"]
        remove_partition_effect
          [of "\<lparr>smoothing_radius = 1, proc_starts = [0, 4, 7], proc_ends = [4, 7, 10],
                num_compute_procs_active = 3, num_compute_procs = 3\<rparr>"
              "\<lparr>min_x = 0, max_x = 10, min_y = 0, max_y = 10\<rparr>"]
  by (simp add: Let_def)

text \<open>
  Claim C7. \<open>add_partition\<close> leaves the table and the active count unchanged when all
  ranks are active, and also when the last active interval is narrower than 2.5 times the
  smoothing radius. Otherwise (with the active ranks and the next slot inside both
  arrays) it returns the table in which the last active interval ends at its midpoint,
  the newly activated rank owns the right half from the midpoint to the old end, and the
  active count is one more; every other slot and field is as before.
\<close>

theorem add_partition_spec:
  "(num_compute_procs_active t = num_compute_procs t \<longrightarrow> add_partition t = Some t) \<and>
   (1 \<le> num_compute_procs_active t \<and>
    num_compute_procs_active t \<le> int (length (proc_starts t)) \<and>
    num_compute_procs_active t \<le> int (length (proc_ends t)) \<and>
    proc_ends t ! (nat (num_compute_procs_active t) - 1)
      - proc_starts t ! (nat (num_compute_procs_active t) - 1) < 2.5 * smoothing_radius t
    \<longrightarrow> add_partition t = Some t) \<and>
   (1 \<le> num_compute_procs_active t \<and>
    num_compute_procs_active t \<noteq> num_compute_procs t \<and>
    num_compute_procs_active t < int (length (proc_starts t)) \<and>
    num_compute_procs_active t < int (length (proc_ends t)) \<and>
    \<not> proc_ends t ! (nat (num_compute_procs_active t) - 1)
      - proc_starts t ! (nat (num_compute_procs_active t) - 1) < 2.5 * smoothing_radius t
    \<longrightarrow> (let added_rank = nat (num_compute_procs_active t);
             old_start = proc_starts t ! (added_rank - 1);
             old_end = proc_ends t ! (added_rank - 1);
             midpoint = (old_start + old_end) / 2
         in add_partition t =
              Some (t\<lparr>proc_starts := (proc_starts t)[added_rank := midpoint],
                       proc_ends := (proc_ends t)[added_rank := old_end,
                                                  added_rank - 1 := midpoint],
                       num_compute_procs_active := num_compute_procs_active t + 1\<rparr>)))"
proof -
  have mid: "s + (e - s) * 0.5 = (s + e) / 2" for s e :: real
    by (simp add: field_simps)
  have full: "num_compute_procs_active t = num_compute_procs t \<longrightarrow> add_partition t = Some t"
    by (simp add: add_partition_def)
  have small: "1 \<le> num_compute_procs_active t \<and>
    num_compute_procs_active t \<le> int (length (proc_starts t)) \<and>
    num_compute_procs_active t \<le> int (length (proc_ends t)) \<and>
    proc_ends t ! (nat (num_compute_procs_active t) - 1)
      - proc_starts t ! (nat (num_compute_procs_active t) - 1) < 2.5 * smoothing_radius t
    \<longrightarrow> add_partition t = Some t"
    using add_partition_noop_small[of t] by blast
  have split: "1 \<le> num_compute_procs_active t \<and>
    num_compute_procs_active t \<noteq> num_compute_procs t \<and>
    num_compute_procs_active t < int (length (proc_starts t)) \<and>
    num_compute_procs_active t < int (length (proc_ends t)) \<and>
    \<not> proc_ends t ! (nat (num_compute_procs_active t) - 1)
      - proc_starts t ! (nat (num_compute_procs_active t) - 1) < 2.5 * smoothing_radius t
    \<longrightarrow> (let added_rank = nat (num_compute_procs_active t);
             old_start = proc_starts t ! (added_rank - 1);
             old_end = proc_ends t ! (added_rank - 1);
             midpoint = (old_start + old_end) / 2
         in add_partition t =
              Some (t\<lparr>proc_starts := (proc_starts t)[added_rank := midpoint],
                       proc_ends := (proc_ends t)[added_rank := old_end,
                                                  added_rank - 1 := midpoint],
                       num_compute_procs_active := num_compute_procs_active t + 1\<rparr>))"
  proof
    assume h: "1 \<le> num_compute_procs_active t \<and>
      num_compute_procs_active t \<noteq> num_compute_procs t \<and>
      num_compute_procs_active t < int (length (proc_starts t)) \<and>
      num_compute_procs_active t < int (length (proc_ends t)) \<and>
      \<not> proc_ends t ! (nat (num_compute_procs_active t) - 1)
        - proc_starts t ! (nat (num_compute_procs_active t) - 1) < 2.5 * smoothing_radius t"
    show "let added_rank = nat (num_compute_procs_active t);
             old_start = proc_starts t ! (added_rank - 1);
             old_end = proc_ends t ! (added_rank - 1);
             midpoint = (old_start + old_end) / 2
         in add_partition t =
              Some (t\<lparr>proc_starts := (proc_starts t)[added_rank := midpoint],
                       proc_ends := (proc_ends t)[added_rank := old_end,
                                                  added_rank - 1 := midpoint],
                       num_compute_procs_active := num_compute_procs_active t + 1\<rparr>)"
      unfolding Let_def mid[symmetric]
      using add_partition_eq[of t] h by blast
  qed
  show ?thesis using full small split by blast
qed

theorem add_partition_spec_witness:
  "num_compute_procs_active
     \<lparr>smoothing_radius = 1, proc_starts = [0, 5], proc_ends = [5, 10],
      num_compute_procs_active = 2, num_compute_procs = 2\<rparr>
   = num_compute_procs
     \<lparr>smoothing_radius = 1, proc_starts = [0, 5], proc_ends = [5, 10],
      num_compute_procs_active = 2, num_compute_procs = 2\<rparr> \<and>
   add_partition
     \<lparr>smoothing_radius = 1, proc_starts = [0, 5], proc_ends = [5, 10],
      num_compute_procs_active = 2, num_compute_procs = 2\<rparr>
   = Some \<lparr>smoothing_radius = 1, proc_starts = [0, 5], proc_ends = [5, 10],
            num_compute_procs_active = 2, num_compute_procs = 2\<rparr> \<and>
   (10 - 8 :: real) < 2.5 * 1 \<and>
   add_partition
     \<lparr>smoothing_radius = 1, proc_starts = [8, 11], proc_ends = [10, 11],
      num_compute_procs_active = 1, num_compute_procs = 2\<rparr>
   = Some \<lparr>smoothing_radius = 1, proc_starts = [8, 11], proc_ends = [10, 11],
            num_compute_procs_active = 1, num_compute_procs = 2\<rparr> \<and>
   \<not> (10 - 0 :: real) < 2.5 * 1 \<and>
   add_partition
     \<lparr>smoothing_radius = 1, proc_starts = [0, 11], proc_ends = [10, 11],
      num_compute_procs_active = 1, num_compute_procs = 2\<rparr>
   = Some \<lparr>smoothing_radius = 1, proc_starts = [0, 5], proc_ends = [5, 10],
            num_compute_procs_active = 2, num_compute_procs = 2\<rparr>"
  using add_partition_spec
          [of "\<lparr>smoothing_radius = 1, proc_starts = [0, 5], proc_ends = [5, 10],
                num_compute_procs_active = 2, num_compute_procs = 2\<rparr>"]
        add_partition_spec
          [of "\<lparr>smoothing_radius = 1, proc_starts = [8, 11], proc_ends = [10, 11],
                num_compute_procs_active = 1, num_compute_procs = 2\<rparr>"]
        add_partition_spec
          [of "\<lparr>smoothing_radius = 1, proc_starts = [0, 11], proc_ends = [10, 11],
                num_compute_procs_active = 1, num_compute_procs = 2\<rparr>"]
  by (simp add: Let_def)

text \<open>
  Claim C1, as stated, fails. With global extents \<open>[0, 10]\<close> and two active ranks owning
  \<open>[0, 2]\<close> and \<open>[2, 4]\<close>, the stated invariant holds (there is no inactive rank), but
  \<open>remove_partition\<close> parks the removed rank at \<open>4 + 1 = 5\<close>, which lies inside
  \<open>[0, 10]\<close>: the resulting table violates the invariant.
\<close>

theorem partition_invariant_counterexample:
  "partition_invariant \<lparr>min_x = 0, max_x = 10, min_y = 0, max_y = 10\<rparr>
     \<lparr>smoothing_radius = 1, proc_starts = [0, 2], proc_ends = [2, 4],
      num_compute_procs_active = 2, num_compute_procs = 2\<rparr> \<and>
   apply_commands
     \<lparr>smoothing_radius = 1, proc_starts = [0, 2], proc_ends = [2, 4],
      num_compute_procs_active = 2, num_compute_procs = 2\<rparr> [RemovePartition]
   = Some \<lparr>smoothing_radius = 1, proc_starts = [0, 5], proc_ends = [4, 5],
            num_compute_procs_active = 1, num_compute_procs = 2\<rparr> \<and>
   \<not> partition_invariant \<lparr>min_x = 0, max_x = 10, min_y = 0, max_y = 10\<rparr>
     \<lparr>smoothing_radius = 1, proc_starts = [0, 5], proc_ends = [4, 5],
      num_compute_procs_active = 1, num_compute_procs = 2\<rparr>"
  by (simp add: partition_invariant_def wf_table_def remove_partition_def
        array_get_def array_set_def upt_eval)

text \<open>
  Claim C1, amended. If in addition the last active interval ends less than \<open>1.0\<close> short
  of \<open>max_x\<close> (in particular when the active intervals cover all of \<open>[min_x, max_x]\<close>),
  then every sequence of \<open>add_partition\<close> and \<open>remove_partition\<close> operations runs
  without leaving the arrays and yields a table in which the active intervals are again
  contiguous, ordered and start at \<open>min_x\<close>, every inactive rank's interval lies outside
  \<open>[min_x, max_x]\<close>, and the last active interval still ends where it did.
\<close>

theorem partition_invariant_preserved:
  assumes "partition_invariant boundary t" and "parking_position_outside boundary t"
  shows "\<exists>t'. apply_commands t cs = Some t' \<and> partition_invariant boundary t'
            \<and> parking_position_outside boundary t'"
  using assms by (rule apply_commands_preserves)

theorem partition_invariant_preserved_witness:
  "partition_invariant \<lparr>min_x = 0, max_x = 10, min_y = 0, max_y = 10\<rparr>
     \<lparr>smoothing_radius = 1, proc_starts = [0, 4, 7], proc_ends = [4, 7, 10],
      num_compute_procs_active = 3, num_compute_procs = 3\<rparr> \<and>
   parking_position_outside \<lparr>min_x = 0, max_x = 10, min_y = 0, max_y = 10\<rparr>
     \<lparr>smoothing_radius = 1, proc_starts = [0, 4, 7], proc_ends = [4, 7, 10],
      num_compute_procs_active = 3, num_compute_procs = 3\<rparr> \<and>
   (\<exists>t'. apply_commands
      \<lparr>smoothing_radius = 1, proc_starts = [0, 4, 7], proc_ends = [4, 7, 10],
       num_compute_procs_active = 3, num_compute_procs = 3\<rparr>
      [RemovePartition, RemovePartition, AddPartition] = Some t' \<and>
      partition_invariant \<lparr>min_x = 0, max_x = 10, min_y = 0, max_y = 10\<rparr> t' \<and> parking_position_outside \<lparr>min_x = 0, max_x = 10, min_y = 0, max_y = 10\<rparr> t')"
proof -
  have h1: "partition_invariant \<lparr>min_x = 0, max_x = 10, min_y = 0, max_y = 10\<rparr>
     \<lparr>smoothing_radius = 1, proc_starts = [0, 4, 7], proc_ends = [4, 7, 10],
      num_compute_procs_active = 3, num_compute_procs = 3\<rparr>"
    by (simp add: partition_invariant_def wf_table_def upt_eval)
  have h2: "parking_position_outside \<lparr>min_x = 0, max_x = 10, min_y = 0, max_y = 10\<rparr>
     \<lparr>smoothing_radius = 1, proc_starts = [0, 4, 7], proc_ends = [4, 7, 10],
      num_compute_procs_active = 3, num_compute_procs = 3\<rparr>"
    by (simp add: parking_position_outside_def)
  show ?thesis
    using h1 h2 partition_invariant_preserved[OF h1 h2] by blast
qed

subsection \<open>Smoothing kernels\<close>

lemma W_inside: "r \<le> h \<Longrightarrow> W r h = 4 / (pi * h ^ 8) * (h\<^sup>2 - r\<^sup>2) ^ 3"
  by (simp add: W_def Let_def power2_eq_square power3_eq_cube power_numeral_reduce mult.assoc)

lemma W_mono_inside:
  assumes h: "0 < h" and r: "0 \<le> r1" "r1 \<le> r2" "r2 \<le> h"
  shows "W r2 h \<le> W r1 h"
proof -
  have c: "0 \<le> 4 / (pi * h ^ 8)" using h by simp
  have "r1\<^sup>2 \<le> r2\<^sup>2" using r by (simp add: power_mono)
  moreover have "r2\<^sup>2 \<le> h\<^sup>2" using r by (simp add: power_mono)
  ultimately have "0 \<le> h\<^sup>2 - r2\<^sup>2" "h\<^sup>2 - r2\<^sup>2 \<le> h\<^sup>2 - r1\<^sup>2" by simp_all
  then have "(h\<^sup>2 - r2\<^sup>2) ^ 3 \<le> (h\<^sup>2 - r1\<^sup>2) ^ 3" by (rule power_mono[rotated])
  then have "4 / (pi * h ^ 8) * (h\<^sup>2 - r2\<^sup>2) ^ 3 \<le> 4 / (pi * h ^ 8) * (h\<^sup>2 - r1\<^sup>2) ^ 3"
    using c by (rule mult_left_mono)
  then show ?thesis using r by (simp add: W_inside)
qed

lemma W_nonneg_inside:
  assumes h: "0 < h" and r: "0 \<le> r" "r \<le> h"
  shows "0 \<le> W r h"
proof -
  have "r\<^sup>2 \<le> h\<^sup>2" using r by (simp add: power_mono)
  then have "0 \<le> (h\<^sup>2 - r\<^sup>2) ^ 3" by simp
  then show ?thesis using h r by (simp add: W_inside)
qed

text \<open>
  Claim C10. For \<open>h > 0\<close>: \<open>W\<close> and \<open>del_W\<close> are zero beyond the cutoff \<open>r > h\<close>; on
  \<open>[0, h]\<close> the kernel \<open>W\<close> is non-negative and decreasing in \<open>r\<close>, so \<open>W 0 h\<close> is its
  largest value there.
\<close>

theorem kernel_cutoff_and_monotone:
  assumes "0 < h"
  shows "(h < r \<longrightarrow> W r h = 0 \<and> del_W r h = 0) \<and>
         (0 \<le> r \<and> r \<le> h \<longrightarrow> 0 \<le> W r h \<and> W r h \<le> W 0 h) \<and>
         (0 \<le> r1 \<and> r1 \<le> r2 \<and> r2 \<le> h \<longrightarrow> W r2 h \<le> W r1 h)"
proof -
  have cut: "h < r \<longrightarrow> W r h = 0 \<and> del_W r h = 0"
    by (simp add: W_def del_W_def)
  have top: "0 \<le> r \<and> r \<le> h \<longrightarrow> 0 \<le> W r h \<and> W r h \<le> W 0 h"
    using W_nonneg_inside[OF assms, of r] W_mono_inside[OF assms, of 0 r] by simp
  have mono: "0 \<le> r1 \<and> r1 \<le> r2 \<and> r2 \<le> h \<longrightarrow> W r2 h \<le> W r1 h"
    using W_mono_inside[OF assms, of r1 r2] by simp
  show ?thesis using cut top mono by blast
qed

theorem kernel_cutoff_and_monotone_witness:
  "(0::real) < 1 \<and> (1::real) < 2 \<and> W 2 1 = 0 \<and> del_W 2 1 = 0 \<and>
   (0::real) \<le> 1/2 \<and> (1/2::real) \<le> 1 \<and> 0 \<le> W (1/2) 1 \<and> W (1/2) 1 \<le> W 0 1 \<and>
   (0::real) \<le> 1/4 \<and> (1/4::real) \<le> 1/2 \<and> W (1/2) 1 \<le> W (1/4) 1"
  using kernel_cutoff_and_monotone[of 1 2 "1/4" "1/2"]
        kernel_cutoff_and_monotone[of 1 "1/2" "1/4" "1/2"]
  by simp

subsection \<open>Boundary conditions\<close>

lemma sqrt_25: "sqrt 25 = 5"
  by (rule real_sqrt_unique) simp_all

lemma sqrt_169: "sqrt 169 = 13"
  by (rule real_sqrt_unique) simp_all

lemma clamp_fixed:
  assumes "min_x (boundary_global S) \<le> x_star p" "x_star p \<le> max_x (boundary_global S)"
      "min_y (boundary_global S) \<le> y_star p" "y_star p \<le> max_y (boundary_global S)"
  shows "clamp_to_boundary p S = p"
  using assms by (simp add: clamp_to_boundary_def Let_def)

lemma clamp_x_cases:
  "x_star (clamp_to_boundary p S) =
     (if x_star p < min_x (boundary_global S) then min_x (boundary_global S)
      else if x_star p > max_x (boundary_global S) then max_x (boundary_global S) - 0.001
      else x_star p)"
  by (simp add: clamp_to_boundary_def Let_def)

lemma clamp_y_cases:
  "y_star (clamp_to_boundary p S) =
     (if y_star p < min_y (boundary_global S) then min_y (boundary_global S)
      else if y_star p > max_y (boundary_global S) then max_y (boundary_global S) - 0.001
      else y_star p)"
  by (simp add: clamp_to_boundary_def Let_def)

lemma clamp_idem:
  assumes "min_x (boundary_global S) \<le> max_x (boundary_global S) - 0.001"
      "min_y (boundary_global S) \<le> max_y (boundary_global S) - 0.001"
  shows "clamp_to_boundary (clamp_to_boundary p S) S = clamp_to_boundary p S"
  using assms by (intro clamp_fixed) (auto simp: clamp_x_cases clamp_y_cases)


lemma mover_repulsion_eq:
  assumes "cx = mover_center_x (tunable_params (params S))"
    and "cy = mover_center_y (tunable_params (params S))"
    and "r = mover_width (tunable_params (params S)) * 0.5"
    and "d2 = (x_star p - cx) * (x_star p - cx) + (y_star p - cy) * (y_star p - cy)"
  shows "mover_repulsion p S =
     (if d2 \<le> r * r \<and> d2 > 0 then
        p\<lparr>x_star := x_star p - (r - sqrt d2) * ((cx - x_star p) / sqrt d2),
          y_star := y_star p - (r - sqrt d2) * ((cy - y_star p) / sqrt d2)\<rparr>
      else p)"
  unfolding assms(4) assms(1,2,3) mover_repulsion_def Let_def by (rule refl)

lemma repulsion_untouched:
  assumes "outside_mover p S"
  shows "mover_repulsion p S = p"
proof -
  define cx where "cx = mover_center_x (tunable_params (params S))"
  define cy where "cy = mover_center_y (tunable_params (params S))"
  define r where "r = mover_width (tunable_params (params S)) * 0.5"
  define d2 where "d2 = (x_star p - cx) * (x_star p - cx) + (y_star p - cy) * (y_star p - cy)"
  have out: "r * r < d2 \<or> d2 = 0"
    using assms unfolding outside_mover_def Let_def cx_def cy_def r_def d2_def .
  then have "\<not> (d2 \<le> r * r \<and> d2 > 0)" by auto
  then have "(if d2 \<le> r * r \<and> d2 > 0 then
        p\<lparr>x_star := x_star p - (r - sqrt d2) * ((cx - x_star p) / sqrt d2),
          y_star := y_star p - (r - sqrt d2) * ((cy - y_star p) / sqrt d2)\<rparr>
      else p) = p" by (rule if_not_P)
  then show ?thesis by (simp only: mover_repulsion_eq[OF cx_def cy_def r_def d2_def])
qed

lemma beyond_in_one_axis:
  fixes r u v :: real
  assumes "0 \<le> r" and "r < \<bar>u\<bar> \<or> r < \<bar>v\<bar>"
  shows "r * r < u * u + v * v"
proof -
  have sq: "r * r < w * w" if "r < \<bar>w\<bar>" for w :: real
  proof -
    have "r * r < \<bar>w\<bar> * \<bar>w\<bar>" using assms(1) that by (intro mult_strict_mono') simp_all
    then show ?thesis by simp
  qed
  from assms(2) show ?thesis
  proof
    assume "r < \<bar>u\<bar>"
    then have "r * r < u * u" by (rule sq)
    moreover have "0 \<le> v * v" by simp
    ultimately show ?thesis by linarith
  next
    assume "r < \<bar>v\<bar>"
    then have "r * r < v * v" by (rule sq)
    moreover have "0 \<le> u * u" by simp
    ultimately show ?thesis by linarith
  qed
qed

lemma clamp_stays_outside_mover:
  assumes clear: "mover_clear_of_walls S" and out: "outside_mover p S"
  shows "outside_mover (clamp_to_boundary p S) S"
proof -
  define cx where "cx = mover_center_x (tunable_params (params S))"
  define cy where "cy = mover_center_y (tunable_params (params S))"
  define r where "r = mover_width (tunable_params (params S)) * 0.5"
  define B where "B = boundary_global S"
  define D where "D = (\<lambda>u :: fluid_particle_t.
      (x_star u - cx) * (x_star u - cx) + (y_star u - cy) * (y_star u - cy))"
  define c where "c = clamp_to_boundary p S"
  have mb: "0 \<le> r" "min_x B < cx - r" "cx + r < max_x B - 0.001"
      "min_y B < cy - r" "cy + r < max_y B - 0.001"
    using clear unfolding mover_clear_of_walls_def Let_def cx_def cy_def r_def B_def by blast+
  have outp: "r * r < D p \<or> D p = 0"
    using out unfolding outside_mover_def Let_def cx_def cy_def r_def D_def .
  have cx_cases: "x_star c = (if x_star p < min_x B then min_x B
      else if x_star p > max_x B then max_x B - 0.001 else x_star p)"
    unfolding c_def B_def by (rule clamp_x_cases)
  have cy_cases: "y_star c = (if y_star p < min_y B then min_y B
      else if y_star p > max_y B then max_y B - 0.001 else y_star p)"
    unfolding c_def B_def by (rule clamp_y_cases)
  have "r * r < D c \<or> D c = 0"
  proof (cases "x_star c = x_star p \<and> y_star c = y_star p")
    case True
    then have "D c = D p" by (simp add: D_def)
    then show ?thesis using outp by simp
  next
    case False
    then have "r < \<bar>x_star c - cx\<bar> \<or> r < \<bar>y_star c - cy\<bar>"
      using cx_cases cy_cases mb by (auto split: if_splits)
    then have "r * r < D c" unfolding D_def using mb(1) by (intro beyond_in_one_axis)
    then show ?thesis by simp
  qed
  then show ?thesis
    unfolding outside_mover_def Let_def c_def[symmetric] cx_def[symmetric] cy_def[symmetric]
      r_def[symmetric] D_def .
qed

text \<open>
  Claim C2, amended. When the mover disc keeps clear of the walls (non-negative radius,
  the disc strictly inside the box and more than \<open>0.001\<close> away from the max edges), then for
  every input position that lies strictly outside the mover circle or exactly at its
  centre, applying \<open>boundaryConditions\<close> twice gives exactly the position that applying it
  once gives; neither application moves the particle off the mover, the first one only
  clamps. Positions inside the mover circle are left out: there a second application
  changes nothing only if the pushed point lands exactly on the circle, which the single
  precision square root and division do not guarantee.
\<close>

theorem boundaryConditions_idempotent_outside_mover:
  assumes "mover_clear_of_walls S" and "outside_mover p S"
  shows "boundaryConditions (boundaryConditions p S) S = boundaryConditions p S \<and>
         boundaryConditions p S = clamp_to_boundary p S"
proof -
  define c where "c = clamp_to_boundary p S"
  have once: "boundaryConditions p S = c"
    using repulsion_untouched[OF assms(2)] by (simp add: boundaryConditions_def c_def)
  have "outside_mover c S"
    unfolding c_def using assms by (rule clamp_stays_outside_mover)
  then have rep: "mover_repulsion c S = c" by (rule repulsion_untouched)
  have box: "min_x (boundary_global S) \<le> max_x (boundary_global S) - 0.001"
      "min_y (boundary_global S) \<le> max_y (boundary_global S) - 0.001"
    using assms(1) unfolding mover_clear_of_walls_def Let_def by linarith+
  have "clamp_to_boundary c S = c" unfolding c_def using box by (rule clamp_idem)
  then have "boundaryConditions c S = c" using rep by (simp add: boundaryConditions_def)
  then show ?thesis using once by (simp add: c_def)
qed

theorem boundaryConditions_idempotent_outside_mover_witness:
  "mover_clear_of_walls (example_sim [] [] 50 50 30) \<and>
   outside_mover (particle_at 99 50 150 (- 3)) (example_sim [] [] 50 50 30) \<and>
   boundaryConditions (particle_at 99 50 150 (- 3)) (example_sim [] [] 50 50 30)
     = particle_at 99 50 (99999 / 1000) 0 \<and>
   boundaryConditions (boundaryConditions (particle_at 99 50 150 (- 3)) (example_sim [] [] 50 50 30))
       (example_sim [] [] 50 50 30)
     = boundaryConditions (particle_at 99 50 150 (- 3)) (example_sim [] [] 50 50 30)"
proof -
  have h1: "mover_clear_of_walls (example_sim [] [] 50 50 30)"
    by (simp add: mover_clear_of_walls_def example_sim_def Let_def)
  have h2: "outside_mover (particle_at 99 50 150 (- 3)) (example_sim [] [] 50 50 30)"
    by (simp add: outside_mover_def example_sim_def particle_at_def Let_def)
  have v: "clamp_to_boundary (particle_at 99 50 150 (- 3)) (example_sim [] [] 50 50 30)
      = particle_at 99 50 (99999 / 1000) 0"
    by (simp add: clamp_to_boundary_def example_sim_def particle_at_def Let_def)
  note th = boundaryConditions_idempotent_outside_mover[OF h1 h2]
  have a: "boundaryConditions (boundaryConditions (particle_at 99 50 150 (- 3)) (example_sim [] [] 50 50 30))
       (example_sim [] [] 50 50 30)
     = boundaryConditions (particle_at 99 50 150 (- 3)) (example_sim [] [] 50 50 30)"
    using th by (rule conjunct1)
  have b: "boundaryConditions (particle_at 99 50 150 (- 3)) (example_sim [] [] 50 50 30)
     = particle_at 99 50 (99999 / 1000) 0"
    using th[THEN conjunct2] unfolding v .
  show ?thesis using h1 h2 a b by (intro conjI)
qed

text \<open>
  Claim C2, as stated, fails. With a mover of radius \<open>15\<close> centred at \<open>(5, 20)\<close>, which
  reaches across the wall \<open>x = 0\<close>, the position \<open>(2, 16)\<close> is pushed out to \<open>(-4, 8)\<close>
  and clamped to \<open>(0, 8)\<close>: a point inside the mover again. The second application pushes
  it once more and ends at \<open>(0, 80/13)\<close>.
\<close>

theorem boundaryConditions_not_idempotent:
  "boundaryConditions (particle_at 2 16 2 16) (example_sim [] [] 5 20 30) = particle_at 2 16 0 8 \<and>
   boundaryConditions (boundaryConditions (particle_at 2 16 2 16) (example_sim [] [] 5 20 30))
       (example_sim [] [] 5 20 30) = particle_at 2 16 0 (80/13) \<and>
   boundaryConditions (boundaryConditions (particle_at 2 16 2 16) (example_sim [] [] 5 20 30))
       (example_sim [] [] 5 20 30)
     \<noteq> boundaryConditions (particle_at 2 16 2 16) (example_sim [] [] 5 20 30)"
proof -
  have once: "boundaryConditions (particle_at 2 16 2 16) (example_sim [] [] 5 20 30)
      = particle_at 2 16 0 8"
    by (simp add: boundaryConditions_def mover_repulsion_def clamp_to_boundary_def
          particle_at_def example_sim_def Let_def sqrt_25)
  have twice: "boundaryConditions (particle_at 2 16 0 8) (example_sim [] [] 5 20 30)
      = particle_at 2 16 0 (80/13)"
    by (simp add: boundaryConditions_def mover_repulsion_def clamp_to_boundary_def
          particle_at_def example_sim_def Let_def sqrt_169)
  have "particle_at 2 16 0 (80/13) \<noteq> particle_at 2 16 0 8"
    by (simp add: particle_at_def)
  then show ?thesis by (simp add: once twice)
qed

text \<open>
  Claim C3 at a position exactly on the max edge: with \<open>max_x = 100\<close> and the mover far
  away, the predicted position \<open>(100, 50)\<close> is returned unchanged, because the clamp tests
  \<^verbatim>\<open>x_star > max_x\<close>; the particle stays on the max boundary, not strictly inside it.
\<close>

theorem boundaryConditions_keeps_max_edge:
  "boundaryConditions (particle_at 99 50 100 50) (example_sim [] [] 5 20 2)
     = particle_at 99 50 100 50 \<and>
   x_star (boundaryConditions (particle_at 99 50 100 50) (example_sim [] [] 5 20 2))
     = max_x (boundary_global (example_sim [] [] 5 20 2)) \<and>
   \<not> x_star (boundaryConditions (particle_at 99 50 100 50) (example_sim [] [] 5 20 2))
       < max_x (boundary_global (example_sim [] [] 5 20 2))"
  by (simp add: boundaryConditions_def mover_repulsion_def clamp_to_boundary_def particle_at_def
        example_sim_def Let_def)

subsection \<open>Velocity reconstruction\<close>

lemma checkVelocity_cases:
  "checkVelocity vx vy =
     (if vx > 20 then 20 else if vx < - 20 then - 20 else vx,
      if vy > 20 then 20 else if vy < - 20 then - 20 else vy)"
  by (simp add: checkVelocity_def Let_def)

lemma updateVelocity_fields:
  "updateVelocity p prm =
     p\<lparr>v_x := fst (checkVelocity ((x_star p - pos_x p) / time_step (tunable_params prm))
                               ((y_star p - pos_y p) / time_step (tunable_params prm))),
       v_y := snd (checkVelocity ((x_star p - pos_x p) / time_step (tunable_params prm))
                               ((y_star p - pos_y p) / time_step (tunable_params prm)))\<rparr>"
  by (simp add: updateVelocity_def Let_def split: prod.splits)

lemma updateVelocities_result:
  assumes len: "number_fluid_particles_local (params S) + number_halo_particles (params S)
                  \<le> int (length (fluid_particle_pointers S))"
  shows "\<exists>S'. updateVelocities S = Some S' \<and>
           length (fluid_particle_pointers S') = length (fluid_particle_pointers S) \<and>
           (\<forall>i < nat (number_fluid_particles_local (params S) + number_halo_particles (params S)).
              fluid_particle_pointers S' ! i
                = updateVelocity (fluid_particle_pointers S ! i) (params S))"
proof -
  define n where "n = nat (number_fluid_particles_local (params S) + number_halo_particles (params S))"
  define I where "I = (\<lambda>k (S' :: fluid_sim_t). params S' = params S \<and>
     length (fluid_particle_pointers S') = length (fluid_particle_pointers S) \<and>
     (\<forall>i < k. fluid_particle_pointers S' ! i = updateVelocity (fluid_particle_pointers S ! i) (params S)) \<and>
     (\<forall>i \<ge> k. fluid_particle_pointers S' ! i = fluid_particle_pointers S ! i))"
  define body where "body = (\<lambda>i (fluid_sim :: fluid_sim_t). do {
          p \<leftarrow> array_get (fluid_particle_pointers fluid_sim) (int i);
          Some (fluid_sim\<lparr>fluid_particle_pointers :=
                  (fluid_particle_pointers fluid_sim)[i := updateVelocity p (params fluid_sim)]\<rparr>)
        })"
  have nlen: "n \<le> length (fluid_particle_pointers S)" using len by (simp add: n_def)
  have init: "I 0 S" by (simp add: I_def)
  have step: "\<exists>s'. body k s = Some s' \<and> I (Suc k) s'" if "k < n" "I k s" for k s
  proof -
    have k: "k < length (fluid_particle_pointers s)" using that nlen by (simp add: I_def)
    have b: "body k s = Some (s\<lparr>fluid_particle_pointers :=
        (fluid_particle_pointers s)[k := updateVelocity (fluid_particle_pointers s ! k) (params s)]\<rparr>)"
      using k by (simp add: body_def array_get_def)
    have "I (Suc k) (s\<lparr>fluid_particle_pointers :=
        (fluid_particle_pointers s)[k := updateVelocity (fluid_particle_pointers s ! k) (params s)]\<rparr>)"
      using that(2) k by (auto simp: I_def nth_list_update less_Suc_eq)
    then show ?thesis using b by simp
  qed
  from for_loop_invariant[of I S n body, OF init step]
  obtain S' where "for_loop [0 ..< n] body S = Some S'" "I n S'" by blast
  then show ?thesis
    unfolding updateVelocities_def n_def[symmetric] body_def[symmetric] by (auto simp: I_def)
qed


text \<open>
  Claim C8. With a non-zero time step and the local and halo particles inside the pointer
  array, \<open>updateVelocities\<close> returns, and for every local and every halo particle the
  committed velocity is \<open>(pos* - pos) / dt\<close> clamped per axis: a component above \<open>20\<close>
  becomes exactly \<open>20\<close>, one below \<open>-20\<close> exactly \<open>-20\<close>, one in between is kept, each axis
  on its own; nothing else of the particle changes.
\<close>

theorem updateVelocities_clamps_per_axis:
  assumes "number_fluid_particles_local (params S) + number_halo_particles (params S)
             \<le> int (length (fluid_particle_pointers S))"
    and "time_step (tunable_params (params S)) \<noteq> 0"
  shows "\<exists>S'. updateVelocities S = Some S' \<and>
     (\<forall>i \<in> {0 ..< nat (number_fluid_particles_local (params S) + number_halo_particles (params S))}.
        let p = fluid_particle_pointers S ! i;
            p' = fluid_particle_pointers S' ! i;
            dt = time_step (tunable_params (params S));
            vx = (x_star p - pos_x p) / dt;
            vy = (y_star p - pos_y p) / dt
        in (20 < vx \<longrightarrow> v_x p' = 20) \<and> (vx < - 20 \<longrightarrow> v_x p' = - 20) \<and>
           (- 20 \<le> vx \<and> vx \<le> 20 \<longrightarrow> v_x p' = vx) \<and>
           (20 < vy \<longrightarrow> v_y p' = 20) \<and> (vy < - 20 \<longrightarrow> v_y p' = - 20) \<and>
           (- 20 \<le> vy \<and> vy \<le> 20 \<longrightarrow> v_y p' = vy) \<and>
           p' = p\<lparr>v_x := v_x p', v_y := v_y p'\<rparr>)"
proof -
  from updateVelocities_result[OF assms(1)] obtain S' where
    S': "updateVelocities S = Some S'"
    and upd: "\<And>i. i < nat (number_fluid_particles_local (params S) + number_halo_particles (params S))
        \<Longrightarrow> fluid_particle_pointers S' ! i = updateVelocity (fluid_particle_pointers S ! i) (params S)"
    by blast
  have "\<forall>i \<in> {0 ..< nat (number_fluid_particles_local (params S) + number_halo_particles (params S))}.
        let p = fluid_particle_pointers S ! i;
            p' = fluid_particle_pointers S' ! i;
            dt = time_step (tunable_params (params S));
            vx = (x_star p - pos_x p) / dt;
            vy = (y_star p - pos_y p) / dt
        in (20 < vx \<longrightarrow> v_x p' = 20) \<and> (vx < - 20 \<longrightarrow> v_x p' = - 20) \<and>
           (- 20 \<le> vx \<and> vx \<le> 20 \<longrightarrow> v_x p' = vx) \<and>
           (20 < vy \<longrightarrow> v_y p' = 20) \<and> (vy < - 20 \<longrightarrow> v_y p' = - 20) \<and>
           (- 20 \<le> vy \<and> vy \<le> 20 \<longrightarrow> v_y p' = vy) \<and>
           p' = p\<lparr>v_x := v_x p', v_y := v_y p'\<rparr>"
  proof
    fix i
    assume "i \<in> {0 ..< nat (number_fluid_particles_local (params S) + number_halo_particles (params S))}"
    then have "fluid_particle_pointers S' ! i = updateVelocity (fluid_particle_pointers S ! i) (params S)"
      using upd by simp
    then show "let p = fluid_particle_pointers S ! i;
            p' = fluid_particle_pointers S' ! i;
            dt = time_step (tunable_params (params S));
            vx = (x_star p - pos_x p) / dt;
            vy = (y_star p - pos_y p) / dt
        in (20 < vx \<longrightarrow> v_x p' = 20) \<and> (vx < - 20 \<longrightarrow> v_x p' = - 20) \<and>
           (- 20 \<le> vx \<and> vx \<le> 20 \<longrightarrow> v_x p' = vx) \<and>
           (20 < vy \<longrightarrow> v_y p' = 20) \<and> (vy < - 20 \<longrightarrow> v_y p' = - 20) \<and>
           (- 20 \<le> vy \<and> vy \<le> 20 \<longrightarrow> v_y p' = vy) \<and>
           p' = p\<lparr>v_x := v_x p', v_y := v_y p'\<rparr>"
      by (simp add: Let_def updateVelocity_fields checkVelocity_cases)
  qed
  then show ?thesis using S' by blast
qed

theorem updateVelocities_clamps_per_axis_witness:
  "number_fluid_particles_local (params
      ((example_sim [particle_at 0 0 30 (- 30), particle_at 1 1 2 3] [] 5 20 2)
         \<lparr>params := (params (example_sim [] [] 5 20 2))
            \<lparr>number_fluid_particles_local := 1, number_halo_particles := 1\<rparr>\<rparr>))
     + number_halo_particles (params
      ((example_sim [particle_at 0 0 30 (- 30), particle_at 1 1 2 3] [] 5 20 2)
         \<lparr>params := (params (example_sim [] [] 5 20 2))
            \<lparr>number_fluid_particles_local := 1, number_halo_particles := 1\<rparr>\<rparr>)) = 2 \<and>
   time_step (tunable_params (params
      ((example_sim [particle_at 0 0 30 (- 30), particle_at 1 1 2 3] [] 5 20 2)
         \<lparr>params := (params (example_sim [] [] 5 20 2))
            \<lparr>number_fluid_particles_local := 1, number_halo_particles := 1\<rparr>\<rparr>))) = 1/2 \<and>
   (\<exists>S'. updateVelocities
      ((example_sim [particle_at 0 0 30 (- 30), particle_at 1 1 2 3] [] 5 20 2)
         \<lparr>params := (params (example_sim [] [] 5 20 2))
            \<lparr>number_fluid_particles_local := 1, number_halo_particles := 1\<rparr>\<rparr>) = Some S' \<and>
      v_x (fluid_particle_pointers S' ! 0) = 20 \<and> v_y (fluid_particle_pointers S' ! 0) = - 20 \<and>
      v_x (fluid_particle_pointers S' ! 1) = 2 \<and> v_y (fluid_particle_pointers S' ! 1) = 4)"
proof -
  define S where "S = (example_sim [particle_at 0 0 30 (- 30), particle_at 1 1 2 3] [] 5 20 2)
         \<lparr>params := (params (example_sim [] [] 5 20 2))
            \<lparr>number_fluid_particles_local := 1, number_halo_particles := 1\<rparr>\<rparr>"
  have h1: "number_fluid_particles_local (params S) + number_halo_particles (params S)
             \<le> int (length (fluid_particle_pointers S))"
    by (simp add: S_def example_sim_def)
  have h2: "time_step (tunable_params (params S)) \<noteq> 0"
    by (simp add: S_def example_sim_def)
  from updateVelocities_clamps_per_axis[OF h1 h2] obtain S' where
    S': "updateVelocities S = Some S'"
    and all: "\<forall>i \<in> {0 ..< nat (number_fluid_particles_local (params S) + number_halo_particles (params S))}.
        let p = fluid_particle_pointers S ! i;
            p' = fluid_particle_pointers S' ! i;
            dt = time_step (tunable_params (params S));
            vx = (x_star p - pos_x p) / dt;
            vy = (y_star p - pos_y p) / dt
        in (20 < vx \<longrightarrow> v_x p' = 20) \<and> (vx < - 20 \<longrightarrow> v_x p' = - 20) \<and>
           (- 20 \<le> vx \<and> vx \<le> 20 \<longrightarrow> v_x p' = vx) \<and>
           (20 < vy \<longrightarrow> v_y p' = 20) \<and> (vy < - 20 \<longrightarrow> v_y p' = - 20) \<and>
           (- 20 \<le> vy \<and> vy \<le> 20 \<longrightarrow> v_y p' = vy) \<and>
           p' = p\<lparr>v_x := v_x p', v_y := v_y p'\<rparr>"
    by blast
  have n: "nat (number_fluid_particles_local (params S) + number_halo_particles (params S)) = 2"
    by (simp add: S_def example_sim_def)
  have "v_x (fluid_particle_pointers S' ! 0) = 20 \<and> v_y (fluid_particle_pointers S' ! 0) = - 20"
    using bspec[OF all, of 0] unfolding n
    by (simp add: Let_def S_def example_sim_def particle_at_def)
  moreover have "v_x (fluid_particle_pointers S' ! 1) = 2 \<and> v_y (fluid_particle_pointers S' ! 1) = 4"
    using bspec[OF all, of 1] unfolding n
    by (simp add: Let_def S_def example_sim_def particle_at_def)
  ultimately show ?thesis
    using S' unfolding S_def[symmetric] by (auto simp: S_def example_sim_def)
qed

subsection \<open>Lagrange multipliers\<close>

lemma neighbor_gradient_eq:
  assumes "j < length (fluid_neighbors n)"
    and "fluid_neighbors n ! j < length (fluid_particle_pointers S)"
  shows "neighbor_gradient S p n j =
     Some (spec_gradient (tunable_parameters_t.smoothing_radius (tunable_params (params S))) p
             (fluid_particle_pointers S ! (fluid_neighbors n ! j)))"
  using assms
  by (simp add: neighbor_gradient_def spec_gradient_def array_get_def Let_def power2_eq_square)

lemma accumulate_sum_C_eq:
  assumes len: "number_fluid_neighbors n \<le> int (length (fluid_neighbors n))"
    and rng: "\<forall>qa \<in> set (take (nat (number_fluid_neighbors n)) (fluid_neighbors n)).
                qa < length (fluid_particle_pointers S)"
  shows "accumulate_sum_C S p n =
     Some (spec_sigma (tunable_parameters_t.smoothing_radius (tunable_params (params S))) p
             (map (\<lambda>qa. fluid_particle_pointers S ! qa)
                (take (nat (number_fluid_neighbors n)) (fluid_neighbors n))))"
proof -
  define m where "m = nat (number_fluid_neighbors n)"
  define h where "h = tunable_parameters_t.smoothing_radius (tunable_params (params S))"
  define qs where "qs = map (\<lambda>qa. fluid_particle_pointers S ! qa) (take m (fluid_neighbors n))"
  define g where "g = spec_gradient h p"
  have mlen: "m \<le> length (fluid_neighbors n)" using len by (simp add: m_def)
  have qlen: "length qs = m" using mlen by (simp add: qs_def)
  have grad: "neighbor_gradient S p n j = Some (g (qs ! j))" if "j < m" for j
  proof -
    have 1: "j < length (fluid_neighbors n)" using that mlen by simp
    have "fluid_neighbors n ! j \<in> set (take m (fluid_neighbors n))"
      using that mlen by (metis in_set_conv_nth length_take min.absorb2 nth_take)
    then have 2: "fluid_neighbors n ! j < length (fluid_particle_pointers S)"
      using rng by (simp add: m_def)
    show ?thesis
      using neighbor_gradient_eq[OF 1 2, of p] that mlen by (simp add: g_def h_def qs_def)
  qed
  have snoc: "take (Suc j) qs = take j qs @ [qs ! j]" if "j < m" for j
    using that qlen by (simp add: take_Suc_conv_app_nth)
  define body1 where "body1 = (\<lambda>j (grad_x :: real, grad_y :: real). do {
            (gx, gy) \<leftarrow> neighbor_gradient S p n j;
            Some (grad_x + gx, grad_y + gy)
          })"
  define I1 where "I1 = (\<lambda>j (acc :: real \<times> real).
     acc = (\<Sum>q\<leftarrow>take j qs. fst (g q), \<Sum>q\<leftarrow>take j qs. snd (g q)))"
  have "\<exists>acc. for_loop [0 ..< m] body1 (0, 0) = Some acc \<and> I1 m acc"
  proof (rule for_loop_invariant)
    show "I1 0 (0, 0)" by (simp add: I1_def)
  next
    fix k s assume "k < m" "I1 k s"
    then show "\<exists>s'. body1 k s = Some s' \<and> I1 (Suc k) s'"
      by (simp add: body1_def I1_def grad snoc split: prod.splits)
  qed
  then have loop1: "for_loop [0 ..< m] body1 (0, 0) =
      Some (\<Sum>q\<leftarrow>qs. fst (g q), \<Sum>q\<leftarrow>qs. snd (g q))"
    using qlen by (auto simp: I1_def)
  define body2 where "body2 = (\<lambda>j (sum_C :: real). do {
          (grad_x, grad_y) \<leftarrow> neighbor_gradient S p n j;
          Some (sum_C + (grad_x * grad_x + grad_y * grad_y))
        })"
  define I2 where "I2 = (\<lambda>s0 j (acc :: real).
     acc = s0 + (\<Sum>q\<leftarrow>take j qs. fst (g q) * fst (g q) + snd (g q) * snd (g q)))"
  have "\<exists>acc. for_loop [0 ..< m] body2 s0 = Some acc \<and> I2 s0 m acc" for s0
  proof (rule for_loop_invariant)
    show "I2 s0 0 s0" by (simp add: I2_def)
  next
    fix k s assume "k < m" "I2 s0 k s"
    then show "\<exists>s'. body2 k s = Some s' \<and> I2 s0 (Suc k) s'"
      by (simp add: body2_def I2_def grad snoc split: prod.splits)
  qed
  then have loop2: "for_loop [0 ..< m] body2 s0 =
      Some (s0 + (\<Sum>q\<leftarrow>qs. fst (g q) * fst (g q) + snd (g q) * snd (g q)))" for s0
    using qlen by (auto simp: I2_def)
  have "accumulate_sum_C S p n =
      Some ((\<Sum>q\<leftarrow>qs. fst (g q)) * (\<Sum>q\<leftarrow>qs. fst (g q)) + (\<Sum>q\<leftarrow>qs. snd (g q)) * (\<Sum>q\<leftarrow>qs. snd (g q))
            + (\<Sum>q\<leftarrow>qs. fst (g q) * fst (g q) + snd (g q) * snd (g q)))"
    unfolding accumulate_sum_C_def m_def[symmetric] body1_def[symmetric] body2_def[symmetric]
    by (simp add: loop1 loop2)
  then show ?thesis
    unfolding spec_sigma_def m_def[symmetric] h_def[symmetric] qs_def[symmetric] g_def[symmetric]
    by (simp add: power2_eq_square)
qed

lemma lambda_scale_one: "rho \<noteq> 0 \<Longrightarrow> lambda_scale rho = 1"
  by (simp add: lambda_scale_def)


lemma spec_sigma_cong:
  assumes "map (spec_gradient h p) qs = map (spec_gradient h' p') qs'"
  shows "spec_sigma h p qs = spec_sigma h' p' qs'"
proof -
  have f: "(\<Sum>q\<leftarrow>qs. fst (spec_gradient h p q)) = (\<Sum>t\<leftarrow>map (spec_gradient h p) qs. fst t)"
    and s: "(\<Sum>q\<leftarrow>qs. snd (spec_gradient h p q)) = (\<Sum>t\<leftarrow>map (spec_gradient h p) qs. snd t)"
    and b: "(\<Sum>q\<leftarrow>qs. (fst (spec_gradient h p q))\<^sup>2 + (snd (spec_gradient h p q))\<^sup>2)
            = (\<Sum>t\<leftarrow>map (spec_gradient h p) qs. (fst t)\<^sup>2 + (snd t)\<^sup>2)"
    by (simp_all add: comp_def)
  have f': "(\<Sum>q\<leftarrow>qs'. fst (spec_gradient h' p' q)) = (\<Sum>t\<leftarrow>map (spec_gradient h' p') qs'. fst t)"
    and s': "(\<Sum>q\<leftarrow>qs'. snd (spec_gradient h' p' q)) = (\<Sum>t\<leftarrow>map (spec_gradient h' p') qs'. snd t)"
    and b': "(\<Sum>q\<leftarrow>qs'. (fst (spec_gradient h' p' q))\<^sup>2 + (snd (spec_gradient h' p' q))\<^sup>2)
            = (\<Sum>t\<leftarrow>map (spec_gradient h' p') qs'. (fst t)\<^sup>2 + (snd t)\<^sup>2)"
    by (simp_all add: comp_def)
  show ?thesis unfolding spec_sigma_def f s b f' s' b' assms ..
qed

lemma spec_gradient_positions:
  assumes "x_star p = x_star p'" "y_star p = y_star p'" "x_star q = x_star q'" "y_star q = y_star q'"
  shows "spec_gradient h p q = spec_gradient h p' q'"
  using assms by (simp add: spec_gradient_def)

lemma calculate_lambda_result:
  assumes wf: "neighbors_in_range S"
    and rho: "rest_density (tunable_params (params S)) \<noteq> 0"
  shows "\<exists>S'. calculate_lambda S = Some S' \<and>
     (\<forall>i < nat (number_fluid_particles_local (params S)).
        lambda (fluid_particle_pointers S' ! i) =
          - (density (fluid_particle_pointers S ! i) / rest_density (tunable_params (params S)) - 1)
          / (spec_sigma (tunable_parameters_t.smoothing_radius (tunable_params (params S)))
               (fluid_particle_pointers S ! i) (spec_neighbors S i) + 1))"
proof -
  define n where "n = nat (number_fluid_particles_local (params S))"
  define ps where "ps = fluid_particle_pointers S"
  define h where "h = tunable_parameters_t.smoothing_radius (tunable_params (params S))"
  define \<rho> where "\<rho> = rest_density (tunable_params (params S))"
  define idx where "idx = (\<lambda>i. take (nat (number_fluid_neighbors (neighbors S ! i)))
                                 (fluid_neighbors (neighbors S ! i)))"
  define \<Lambda> where "\<Lambda> = (\<lambda>i. - (density (ps ! i) / \<rho> - 1)
                          / (spec_sigma h (ps ! i) (map (\<lambda>qa. ps ! qa) (idx i)) + 1))"
  define I where "I = (\<lambda>k (s :: fluid_sim_t).
     params s = params S \<and> neighbors s = neighbors S \<and>
     length (fluid_particle_pointers s) = length ps \<and>
     (\<forall>a < length ps. x_star (fluid_particle_pointers s ! a) = x_star (ps ! a) \<and>
                       y_star (fluid_particle_pointers s ! a) = y_star (ps ! a) \<and>
                       density (fluid_particle_pointers s ! a) = density (ps ! a)) \<and>
     (\<forall>i < k. lambda (fluid_particle_pointers s ! i) = \<Lambda> i))"
  have nps: "n \<le> length ps" and nnb: "n \<le> length (neighbors S)"
    using wf by (auto simp: neighbors_in_range_def n_def ps_def)
  have nbr: "number_fluid_neighbors (neighbors S ! i) \<le> int (length (fluid_neighbors (neighbors S ! i)))"
    and inr: "\<forall>qa \<in> set (idx i). qa < length ps" if "i < n" for i
    using wf that by (auto simp: neighbors_in_range_def n_def ps_def idx_def)
  have init: "I 0 S" by (simp add: I_def ps_def)
  have step: "\<exists>s'. calculate_lambda_particle k s = Some s' \<and> I (Suc k) s'"
    if k: "k < n" and inv: "I k s" for k s
  proof -
    define p where "p = fluid_particle_pointers s ! k"
    have same: "params s = params S" "neighbors s = neighbors S"
        "length (fluid_particle_pointers s) = length ps"
      using inv by (simp_all add: I_def)
    have pos: "x_star (fluid_particle_pointers s ! a) = x_star (ps ! a)"
        "y_star (fluid_particle_pointers s ! a) = y_star (ps ! a)"
        "density (fluid_particle_pointers s ! a) = density (ps ! a)" if "a < length ps" for a
      using inv that by (simp_all add: I_def)
    have old: "lambda (fluid_particle_pointers s ! i) = \<Lambda> i" if "i < k" for i
      using inv that by (simp add: I_def)
    have kps: "k < length ps" using k nps by simp
    have getp: "array_get (fluid_particle_pointers s) (int k) = Some p"
      using kps same by (simp add: array_get_def p_def)
    have getn: "array_get (neighbors S) (int k) = Some (neighbors S ! k)"
      using k nnb by (simp add: array_get_def)
    have inr': "\<forall>qa \<in> set (take (nat (number_fluid_neighbors (neighbors S ! k)))
                                (fluid_neighbors (neighbors S ! k))).
                  qa < length (fluid_particle_pointers s)"
      using inr[OF k] same by (simp add: idx_def)
    have acc: "accumulate_sum_C s p (neighbors S ! k) =
        Some (spec_sigma h p (map (\<lambda>qa. fluid_particle_pointers s ! qa) (idx k)))"
      using accumulate_sum_C_eq[OF nbr[OF k] inr', of p] same by (simp add: h_def idx_def)
    have "map (spec_gradient h p) (map (\<lambda>qa. fluid_particle_pointers s ! qa) (idx k))
        = map (spec_gradient h (ps ! k)) (map (\<lambda>qa. ps ! qa) (idx k))"
      using inr[OF k] pos kps
      by (auto simp: p_def intro!: spec_gradient_positions)
    then have sig: "spec_sigma h p (map (\<lambda>qa. fluid_particle_pointers s ! qa) (idx k))
        = spec_sigma h (ps ! k) (map (\<lambda>qa. ps ! qa) (idx k))"
      by (rule spec_sigma_cong)
    define lam where "lam = - (density p / \<rho> - 1)
        / (spec_sigma h p (map (\<lambda>qa. fluid_particle_pointers s ! qa) (idx k)) + 1)"
    have lam: "lam = \<Lambda> k"
      unfolding lam_def \<Lambda>_def sig using pos(3)[OF kps] by (simp add: p_def)
    have run: "calculate_lambda_particle k s =
        Some (s\<lparr>fluid_particle_pointers := (fluid_particle_pointers s)[k := p\<lparr>lambda := lam\<rparr>]\<rparr>)"
    proof -
      have e: "- ((density p / rest_density (tunable_params (params S)) - 1)
                  / (spec_sigma h p (map ((!) (fluid_particle_pointers s)) (idx k)) + 1)) = lam"
        unfolding lam_def \<rho>_def by (rule divide_minus_left[symmetric])
      show ?thesis
        using rho
        by (simp add: calculate_lambda_particle_def getp getn acc same lambda_scale_one Let_def e)
    qed
    have "I (Suc k) (s\<lparr>fluid_particle_pointers := (fluid_particle_pointers s)[k := p\<lparr>lambda := lam\<rparr>]\<rparr>)"
      unfolding I_def using same pos old kps lam
      by (auto simp: nth_list_update less_Suc_eq p_def)
    then show ?thesis using run by simp
  qed
  from for_loop_invariant[of I S n calculate_lambda_particle, OF init step]
  obtain S' where "for_loop [0 ..< n] calculate_lambda_particle S = Some S'" "I n S'" by blast
  then show ?thesis
    unfolding calculate_lambda_def n_def[symmetric]
    by (auto simp: I_def \<Lambda>_def spec_neighbors_def idx_def ps_def h_def \<rho>_def)
qed


lemma neg_quotient: "- ((a - 1) / b) = (1 - a) / b" for a b :: real
  by (metis minus_diff_eq minus_divide_left)

lemma sqrt_9: "sqrt 9 = 3"
  by (rule real_sqrt_unique) simp_all

text \<open>
  Claim C4. With a non-zero rest density and the neighbour lists of the local particles
  inside their arrays, \<open>calculate_lambda\<close> returns, and afterwards every local particle
  \<open>i\<close> has the multiplier \<open>- C\<^sub>i / (\<Sigma>\<^sub>i + 1)\<close>, where \<open>C\<^sub>i = density\<^sub>i / rest_density - 1\<close>
  and \<open>\<Sigma>\<^sub>i\<close> is the squared norm of the summed neighbour gradients plus the sum of the
  neighbours' squared gradients, all taken at the predicted positions.
\<close>

theorem calculate_lambda_refines_spec:
  assumes "neighbors_in_range S"
    and "rest_density (tunable_params (params S)) \<noteq> 0"
  shows "\<exists>S'. calculate_lambda S = Some S' \<and>
     (\<forall>i \<in> {0 ..< nat (number_fluid_particles_local (params S))}.
        lambda (fluid_particle_pointers S' ! i) =
          - (density (fluid_particle_pointers S ! i) / rest_density (tunable_params (params S)) - 1)
          / (spec_sigma (tunable_parameters_t.smoothing_radius (tunable_params (params S)))
               (fluid_particle_pointers S ! i) (spec_neighbors S i) + 1))"
  using calculate_lambda_result[OF assms] by auto

theorem calculate_lambda_refines_spec_witness:
  "neighbors_in_range
     (example_sim [(particle_at 0 0 0 0)\<lparr>density := 3\<rparr>, particle_at 3 0 3 0]
        [\<lparr>fluid_neighbors = [1], number_fluid_neighbors = 1\<rparr>,
         \<lparr>fluid_neighbors = [0], number_fluid_neighbors = 1\<rparr>] 5 20 2) \<and>
   (\<exists>S'. calculate_lambda
      (example_sim [(particle_at 0 0 0 0)\<lparr>density := 3\<rparr>, particle_at 3 0 3 0]
        [\<lparr>fluid_neighbors = [1], number_fluid_neighbors = 1\<rparr>,
         \<lparr>fluid_neighbors = [0], number_fluid_neighbors = 1\<rparr>] 5 20 2) = Some S' \<and>
      lambda (fluid_particle_pointers S' ! 0) = - 2 \<and>
      lambda (fluid_particle_pointers S' ! 1) = 0)"
proof -
  define S where "S = example_sim [(particle_at 0 0 0 0)\<lparr>density := 3\<rparr>, particle_at 3 0 3 0]
        [\<lparr>fluid_neighbors = [1], number_fluid_neighbors = 1\<rparr>,
         \<lparr>fluid_neighbors = [0], number_fluid_neighbors = 1\<rparr>] 5 20 2"
  have h1: "neighbors_in_range S"
    by (simp add: S_def example_sim_def neighbors_in_range_def upt_eval)
  have h2: "rest_density (tunable_params (params S)) \<noteq> 0"
    by (simp add: S_def example_sim_def)
  have n: "nat (number_fluid_particles_local (params S)) = 2"
    by (simp add: S_def example_sim_def)
  have s0: "spec_sigma (tunable_parameters_t.smoothing_radius (tunable_params (params S)))
               (fluid_particle_pointers S ! 0) (spec_neighbors S 0) = 0"
    by (simp add: S_def example_sim_def spec_sigma_def spec_neighbors_def spec_gradient_def
          particle_at_def del_W_def sqrt_9 Let_def)
  have s1: "spec_sigma (tunable_parameters_t.smoothing_radius (tunable_params (params S)))
               (fluid_particle_pointers S ! 1) (spec_neighbors S 1) = 0"
    by (simp add: S_def example_sim_def spec_sigma_def spec_neighbors_def spec_gradient_def
          particle_at_def del_W_def sqrt_9 Let_def)
  from calculate_lambda_refines_spec[OF h1 h2] obtain S' where
    S': "calculate_lambda S = Some S'"
    and all: "\<forall>i \<in> {0 ..< nat (number_fluid_particles_local (params S))}.
        lambda (fluid_particle_pointers S' ! i) =
          - (density (fluid_particle_pointers S ! i) / rest_density (tunable_params (params S)) - 1)
          / (spec_sigma (tunable_parameters_t.smoothing_radius (tunable_params (params S)))
               (fluid_particle_pointers S ! i) (spec_neighbors S i) + 1)"
    by blast
  have "lambda (fluid_particle_pointers S' ! 0) = - 2"
    using bspec[OF all, of 0] unfolding n s0 by (simp add: S_def example_sim_def particle_at_def)
  moreover have "lambda (fluid_particle_pointers S' ! 1) = 0"
    using bspec[OF all, of 1] unfolding n s1 by (simp add: S_def example_sim_def particle_at_def)
  ultimately show ?thesis using h1 S' unfolding S_def by blast
qed

text \<open>
  Claim C5. For a non-zero rest density the factor \<^verbatim>\<open>(1.0f/rest_density*rest_density)\<close>
  is \<open>1\<close>, so the multiplier of a particle is \<open>- C\<^sub>i\<close> over the accumulated, un-normalised
  squared-gradient sum plus \<open>1\<close>: the rest density enters through \<open>C\<^sub>i\<close> alone.
\<close>

theorem lambda_scale_cancels:
  assumes "rest_density (tunable_params (params S)) \<noteq> 0"
    and "array_get (fluid_particle_pointers S) (int i) = Some p"
    and "array_get (neighbors S) (int i) = Some n"
    and "accumulate_sum_C S p n = Some sum_C"
  shows "lambda_scale (rest_density (tunable_params (params S))) = 1 \<and>
     calculate_lambda_particle i S =
       Some (S\<lparr>fluid_particle_pointers := (fluid_particle_pointers S)
                 [i := p\<lparr>lambda := - (density p / rest_density (tunable_params (params S)) - 1)
                                     / (sum_C + 1)\<rparr>]\<rparr>)"
  using assms by (simp add: calculate_lambda_particle_def lambda_scale_one Let_def neg_quotient)

theorem lambda_scale_cancels_witness:
  "lambda_scale 4 = 1 \<and>
   calculate_lambda_particle 0
     ((example_sim [(particle_at 0 0 0 0)\<lparr>density := 12\<rparr>, particle_at 3 0 3 0]
        [\<lparr>fluid_neighbors = [1], number_fluid_neighbors = 1\<rparr>,
         \<lparr>fluid_neighbors = [0], number_fluid_neighbors = 1\<rparr>] 5 20 2)
      \<lparr>params := \<lparr>tunable_params =
                  \<lparr>time_step = 1/2, smoothing_radius = 1, rest_density = 4,
                   mover_center_x = 5, mover_center_y = 20, mover_width = 2,
                   node_start_x = 0, node_end_x = 10\<rparr>,
                number_fluid_particles_local = 2,
                number_halo_particles = 0\<rparr>\<rparr>)
   = Some ((example_sim [(particle_at 0 0 0 0)\<lparr>density := 12, lambda := - 2\<rparr>, particle_at 3 0 3 0]
        [\<lparr>fluid_neighbors = [1], number_fluid_neighbors = 1\<rparr>,
         \<lparr>fluid_neighbors = [0], number_fluid_neighbors = 1\<rparr>] 5 20 2)
      \<lparr>params := \<lparr>tunable_params =
                  \<lparr>time_step = 1/2, smoothing_radius = 1, rest_density = 4,
                   mover_center_x = 5, mover_center_y = 20, mover_width = 2,
                   node_start_x = 0, node_end_x = 10\<rparr>,
                number_fluid_particles_local = 2,
                number_halo_particles = 0\<rparr>\<rparr>)"
proof -
  define S where "S = (example_sim [(particle_at 0 0 0 0)\<lparr>density := 12\<rparr>, particle_at 3 0 3 0]
        [\<lparr>fluid_neighbors = [1], number_fluid_neighbors = 1\<rparr>,
         \<lparr>fluid_neighbors = [0], number_fluid_neighbors = 1\<rparr>] 5 20 2)
      \<lparr>params := \<lparr>tunable_params =
                  \<lparr>time_step = 1/2, smoothing_radius = 1, rest_density = 4,
                   mover_center_x = 5, mover_center_y = 20, mover_width = 2,
                   node_start_x = 0, node_end_x = 10\<rparr>,
                number_fluid_particles_local = 2,
                number_halo_particles = 0\<rparr>\<rparr>"
  have h1: "rest_density (tunable_params (params S)) \<noteq> 0"
    by (simp add: S_def example_sim_def)
  have h2: "array_get (fluid_particle_pointers S) (int 0) = Some ((particle_at 0 0 0 0)\<lparr>density := 12\<rparr>)"
    by (simp add: S_def example_sim_def array_get_def)
  have h3: "array_get (neighbors S) (int 0) = Some \<lparr>fluid_neighbors = [1], number_fluid_neighbors = 1\<rparr>"
    by (simp add: S_def example_sim_def array_get_def)
  have h4: "accumulate_sum_C S ((particle_at 0 0 0 0)\<lparr>density := 12\<rparr>)
              \<lparr>fluid_neighbors = [1], number_fluid_neighbors = 1\<rparr> = Some 0"
    by (simp add: accumulate_sum_C_def neighbor_gradient_def S_def example_sim_def array_get_def
          particle_at_def del_W_def sqrt_9 Let_def upt_eval)
  show ?thesis
    using lambda_scale_cancels[OF h1 h2 h3 h4]
    by (simp add: S_def example_sim_def particle_at_def)
qed

subsection \<open>Out-of-bounds scan\<close>

lemma filter_upt_prefix_length:
  assumes "k \<le> n"
  shows "length (filter P [0 ..< k]) \<le> length (filter P [0 ..< n])"
proof -
  have "[0 ..< n] = [0 ..< k] @ [k ..< n]"
    using assms by (metis le_add_diff_inverse upt_add_eq_append zero_le)
  then show ?thesis by simp
qed

lemma take_Suc_update:
  assumes "m < length xs" and "take m xs = ys"
  shows "take (Suc m) (xs[m := v]) = ys @ [v]"
  using assms by (simp add: take_Suc_conv_app_nth)

lemma oob_scan_result:
  fixes S :: fluid_sim_t
  defines "n \<equiv> nat (number_fluid_particles_local (params S))"
    and "ps \<equiv> fluid_particle_pointers S"
    and "lo \<equiv> node_start_x (tunable_params (params S))"
    and "hi \<equiv> node_end_x (tunable_params (params S))"
  assumes len: "number_fluid_particles_local (params S) \<le> int (length (fluid_particle_pointers S))"
    and capl: "length (filter (\<lambda>i. pos_x (ps ! i) < lo) [0 ..< n])
                 \<le> length (oob_pointer_indices_left (out_of_bounds S))"
    and capr: "length (filter (\<lambda>i. \<not> pos_x (ps ! i) < lo \<and> pos_x (ps ! i) > hi) [0 ..< n])
                 \<le> length (oob_pointer_indices_right (out_of_bounds S))"
  shows "\<exists>S'. oob_scan S = Some S' \<and>
           left_queue S' = map int (filter (\<lambda>i. pos_x (ps ! i) < lo) [0 ..< n]) \<and>
           right_queue S' = map int (filter (\<lambda>i. \<not> pos_x (ps ! i) < lo \<and> pos_x (ps ! i) > hi) [0 ..< n]) \<and>
           number_oob_particles_left (out_of_bounds S') = int (length (left_queue S')) \<and>
           number_oob_particles_right (out_of_bounds S') = int (length (right_queue S'))"
proof -
  define L where "L = (\<lambda>k. filter (\<lambda>i. pos_x (ps ! i) < lo) [0 ..< k])"
  define R where "R = (\<lambda>k. filter (\<lambda>i. \<not> pos_x (ps ! i) < lo \<and> pos_x (ps ! i) > hi) [0 ..< k])"
  define oob0 where "oob0 = (out_of_bounds S)\<lparr>number_oob_particles_left := 0,
                                         number_oob_particles_right := 0\<rparr>"
  define I where "I = (\<lambda>k (oob :: oob_t).
     number_oob_particles_left oob = int (length (L k)) \<and>
     number_oob_particles_right oob = int (length (R k)) \<and>
     length (oob_pointer_indices_left oob) = length (oob_pointer_indices_left (out_of_bounds S)) \<and>
     length (oob_pointer_indices_right oob) = length (oob_pointer_indices_right (out_of_bounds S)) \<and>
     take (length (L k)) (oob_pointer_indices_left oob) = map int (L k) \<and>
     take (length (R k)) (oob_pointer_indices_right oob) = map int (R k))"
  have nlen: "n \<le> length ps" using len by (simp add: n_def ps_def)
  have init: "I 0 oob0" by (simp add: I_def L_def R_def oob0_def)
  have step: "\<exists>s'. oob_scan_particle S k s = Some s' \<and> I (Suc k) s'" if k: "k < n" and inv: "I k s" for k s
  proof -
    have get: "array_get (fluid_particle_pointers S) (int k) = Some (ps ! k)"
      using k nlen by (simp add: array_get_def ps_def)
    have Lle: "length (L (Suc k)) \<le> length (oob_pointer_indices_left s)"
      using filter_upt_prefix_length[of "Suc k" n "\<lambda>i. pos_x (ps ! i) < lo"] k capl inv
      by (simp add: L_def I_def)
    have Rle: "length (R (Suc k)) \<le> length (oob_pointer_indices_right s)"
      using filter_upt_prefix_length[of "Suc k" n "\<lambda>i. \<not> pos_x (ps ! i) < lo \<and> pos_x (ps ! i) > hi"]
        k capr inv
      by (simp add: R_def I_def)
    consider (left) "pos_x (ps ! k) < lo"
      | (right) "\<not> pos_x (ps ! k) < lo" "pos_x (ps ! k) > hi"
      | (inside) "\<not> pos_x (ps ! k) < lo" "\<not> pos_x (ps ! k) > hi"
      by blast
    then show ?thesis
    proof cases
      case left
      then have LS: "L (Suc k) = L k @ [k]" and RS: "R (Suc k) = R k" by (simp_all add: L_def R_def)
      have m: "length (L k) < length (oob_pointer_indices_left s)" using Lle LS by simp
      have "oob_scan_particle S k s =
          Some (s\<lparr>oob_pointer_indices_left := (oob_pointer_indices_left s)[length (L k) := int k],
                   number_oob_particles_left := int (length (L k)) + 1\<rparr>)"
        using left get m inv
        by (simp add: oob_scan_particle_def I_def array_set_def lo_def)
      moreover have "I (Suc k) (s\<lparr>oob_pointer_indices_left := (oob_pointer_indices_left s)[length (L k) := int k],
                   number_oob_particles_left := int (length (L k)) + 1\<rparr>)"
        using inv m take_Suc_update[of "length (L k)" "oob_pointer_indices_left s" "map int (L k)" "int k"]
        by (simp add: I_def LS RS)
      ultimately show ?thesis by simp
    next
      case right
      then have LS: "L (Suc k) = L k" and RS: "R (Suc k) = R k @ [k]" by (simp_all add: L_def R_def)
      have m: "length (R k) < length (oob_pointer_indices_right s)" using Rle RS by simp
      have "oob_scan_particle S k s =
          Some (s\<lparr>oob_pointer_indices_right := (oob_pointer_indices_right s)[length (R k) := int k],
                   number_oob_particles_right := int (length (R k)) + 1\<rparr>)"
        using right get m inv
        by (simp add: oob_scan_particle_def I_def array_set_def lo_def hi_def)
      moreover have "I (Suc k) (s\<lparr>oob_pointer_indices_right := (oob_pointer_indices_right s)[length (R k) := int k],
                   number_oob_particles_right := int (length (R k)) + 1\<rparr>)"
        using inv m take_Suc_update[of "length (R k)" "oob_pointer_indices_right s" "map int (R k)" "int k"]
        by (simp add: I_def LS RS)
      ultimately show ?thesis by simp
    next
      case inside
      then have LS: "L (Suc k) = L k" and RS: "R (Suc k) = R k" by (simp_all add: L_def R_def)
      have "oob_scan_particle S k s = Some s"
        using inside get by (simp add: oob_scan_particle_def lo_def hi_def)
      moreover have "I (Suc k) s" using inv by (simp add: I_def LS RS)
      ultimately show ?thesis by simp
    qed
  qed
  from for_loop_invariant[of I oob0 n "oob_scan_particle S", OF init step]
  obtain oob' where loop: "for_loop [0 ..< n] (oob_scan_particle S) oob0 = Some oob'" and fin: "I n oob'"
    by blast
  have "oob_scan S = Some (S\<lparr>out_of_bounds := oob'\<rparr>)"
    using loop by (simp add: oob_scan_def Let_def n_def oob0_def)
  moreover have "left_queue (S\<lparr>out_of_bounds := oob'\<rparr>) = map int (L n)"
    "right_queue (S\<lparr>out_of_bounds := oob'\<rparr>) = map int (R n)"
    using fin by (simp_all add: left_queue_def right_queue_def I_def)
  moreover have "number_oob_particles_left oob' = int (length (L n))"
    "number_oob_particles_right oob' = int (length (R n))"
    using fin by (simp_all add: I_def)
  ultimately show ?thesis by (simp add: L_def R_def)
qed


text \<open>
  Claim C9. For a rank whose start boundary is not above its end boundary, with the local
  particles inside the pointer array and each queue array large enough for its entries,
  the scan returns; the left queue then holds exactly the indices of the local particles
  with \<open>x\<close> strictly below the start boundary and the right queue exactly those with \<open>x\<close>
  strictly above the end boundary, both in increasing order; the recorded counts are the
  queue lengths whatever the counts were before; and a particle with \<open>x\<close> equal to either
  boundary is in neither queue.
\<close>

theorem oob_scan_queues:
  assumes "number_fluid_particles_local (params S) \<le> int (length (fluid_particle_pointers S))"
    and "length (filter (\<lambda>i. pos_x (fluid_particle_pointers S ! i) < node_start_x (tunable_params (params S)))
                   [0 ..< nat (number_fluid_particles_local (params S))])
           \<le> length (oob_pointer_indices_left (out_of_bounds S))"
    and "length (filter (\<lambda>i. pos_x (fluid_particle_pointers S ! i) > node_end_x (tunable_params (params S)))
                   [0 ..< nat (number_fluid_particles_local (params S))])
           \<le> length (oob_pointer_indices_right (out_of_bounds S))"
    and "node_start_x (tunable_params (params S)) \<le> node_end_x (tunable_params (params S))"
  shows "\<exists>S'. oob_scan S = Some S' \<and>
     left_queue S' =
       map int (filter (\<lambda>i. pos_x (fluid_particle_pointers S ! i) < node_start_x (tunable_params (params S)))
                  [0 ..< nat (number_fluid_particles_local (params S))]) \<and>
     right_queue S' =
       map int (filter (\<lambda>i. pos_x (fluid_particle_pointers S ! i) > node_end_x (tunable_params (params S)))
                  [0 ..< nat (number_fluid_particles_local (params S))]) \<and>
     sorted_wrt (<) (left_queue S') \<and> sorted_wrt (<) (right_queue S') \<and>
     number_oob_particles_left (out_of_bounds S') = int (length (left_queue S')) \<and>
     number_oob_particles_right (out_of_bounds S') = int (length (right_queue S')) \<and>
     (\<forall>i \<in> {0 ..< nat (number_fluid_particles_local (params S))}.
        pos_x (fluid_particle_pointers S ! i) = node_start_x (tunable_params (params S)) \<or>
        pos_x (fluid_particle_pointers S ! i) = node_end_x (tunable_params (params S))
        \<longrightarrow> int i \<notin> set (left_queue S') \<and> int i \<notin> set (right_queue S'))"
proof -
  define lo where "lo = node_start_x (tunable_params (params S))"
  define hi where "hi = node_end_x (tunable_params (params S))"
  define ps where "ps = fluid_particle_pointers S"
  define n where "n = nat (number_fluid_particles_local (params S))"
  have le: "lo \<le> hi" using assms(4) by (simp add: lo_def hi_def)
  have same: "(\<lambda>i. \<not> pos_x (ps ! i) < lo \<and> pos_x (ps ! i) > hi) = (\<lambda>i. pos_x (ps ! i) > hi)"
    using le by (intro ext) auto
  have capr: "length (filter (\<lambda>i. \<not> pos_x (ps ! i) < lo \<and> pos_x (ps ! i) > hi) [0 ..< n])
      \<le> length (oob_pointer_indices_right (out_of_bounds S))"
    unfolding same using assms(3) by (simp add: ps_def hi_def n_def)
  from oob_scan_result[OF assms(1) assms(2), folded ps_def lo_def hi_def n_def, OF capr]
  obtain S' where S': "oob_scan S = Some S'"
    and lq: "left_queue S' = map int (filter (\<lambda>i. pos_x (ps ! i) < lo) [0 ..< n])"
    and rq: "right_queue S' = map int (filter (\<lambda>i. pos_x (ps ! i) > hi) [0 ..< n])"
    and nl: "number_oob_particles_left (out_of_bounds S') = int (length (left_queue S'))"
    and nr: "number_oob_particles_right (out_of_bounds S') = int (length (right_queue S'))"
    unfolding same by blast
  have sl: "sorted_wrt (<) (left_queue S')" unfolding lq
    by (simp add: sorted_wrt_map sorted_wrt_filter)
  have sr: "sorted_wrt (<) (right_queue S')" unfolding rq
    by (simp add: sorted_wrt_map sorted_wrt_filter)
  have edge: "\<forall>i \<in> {0 ..< n}. pos_x (ps ! i) = lo \<or> pos_x (ps ! i) = hi
        \<longrightarrow> int i \<notin> set (left_queue S') \<and> int i \<notin> set (right_queue S')"
    unfolding lq rq using le by auto
  show ?thesis
    using S' lq rq sl sr nl nr edge unfolding lo_def hi_def ps_def n_def by blast
qed

theorem oob_scan_queues_witness:
  "(\<exists>S'. oob_scan (example_sim [particle_at (- 1) 0 0 0, particle_at 0 0 0 0, particle_at 5 0 0 0,
                                 particle_at 10 0 0 0, particle_at 11 0 0 0] [] 5 20 2) = Some S' \<and>
      left_queue S' = [0] \<and> right_queue S' = [4] \<and>
      number_oob_particles_left (out_of_bounds S') = 1 \<and>
      number_oob_particles_right (out_of_bounds S') = 1)"
proof -
  define S where "S = example_sim [particle_at (- 1) 0 0 0, particle_at 0 0 0 0, particle_at 5 0 0 0,
                                 particle_at 10 0 0 0, particle_at 11 0 0 0] [] 5 20 2"
  have n: "nat (number_fluid_particles_local (params S)) = 5" by (simp add: S_def example_sim_def)
  have fl: "filter (\<lambda>i. pos_x (fluid_particle_pointers S ! i) < node_start_x (tunable_params (params S)))
                   [0 ..< 5] = [0]"
    by (simp add: S_def example_sim_def particle_at_def upt_eval)
  have fr: "filter (\<lambda>i. pos_x (fluid_particle_pointers S ! i) > node_end_x (tunable_params (params S)))
                   [0 ..< 5] = [4]"
    by (simp add: S_def example_sim_def particle_at_def upt_eval)
  have h1: "number_fluid_particles_local (params S) \<le> int (length (fluid_particle_pointers S))"
    by (simp add: S_def example_sim_def)
  have h2: "length (filter (\<lambda>i. pos_x (fluid_particle_pointers S ! i) < node_start_x (tunable_params (params S)))
                   [0 ..< nat (number_fluid_particles_local (params S))])
           \<le> length (oob_pointer_indices_left (out_of_bounds S))"
    unfolding n fl by (simp add: S_def example_sim_def)
  have h3: "length (filter (\<lambda>i. pos_x (fluid_particle_pointers S ! i) > node_end_x (tunable_params (params S)))
                   [0 ..< nat (number_fluid_particles_local (params S))])
           \<le> length (oob_pointer_indices_right (out_of_bounds S))"
    unfolding n fr by (simp add: S_def example_sim_def)
  have h4: "node_start_x (tunable_params (params S)) \<le> node_end_x (tunable_params (params S))"
    by (simp add: S_def example_sim_def)
  from oob_scan_queues[OF h1 h2 h3 h4] obtain S' where
    "oob_scan S = Some S'"
    "left_queue S' = map int (filter (\<lambda>i. pos_x (fluid_particle_pointers S ! i) < node_start_x (tunable_params (params S)))
                  [0 ..< nat (number_fluid_particles_local (params S))])"
    "right_queue S' = map int (filter (\<lambda>i. pos_x (fluid_particle_pointers S ! i) > node_end_x (tunable_params (params S)))
                  [0 ..< nat (number_fluid_particles_local (params S))])"
    "number_oob_particles_left (out_of_bounds S') = int (length (left_queue S'))"
    "number_oob_particles_right (out_of_bounds S') = int (length (right_queue S'))"
    by blast
  then have "oob_scan S = Some S' \<and> left_queue S' = [0] \<and> right_queue S' = [4] \<and>
      number_oob_particles_left (out_of_bounds S') = 1 \<and>
      number_oob_particles_right (out_of_bounds S') = 1"
    unfolding n fl fr by simp
  then show ?thesis unfolding S_def by blast
qed

end
